theory Spec2Isabelle
  imports Complex_Main "HOL-Library.Word" "HOL-Library.Log_Nat"
begin

unbundle bit_operations_syntax

chapter \<open>clevo-indicator: a shallow embedding of \<^verbatim>\<open>src/clevo-indicator.c\<close>\<close>

text \<open>
  The C program is translated function by function. C \<^verbatim>\<open>int\<close> values are modelled as
  \<^typ>\<open>int\<close>: every integer the program computes stays far inside the 32-bit range for the
  inputs considered (temperatures, duties, counters below a few thousand), so no wrap-around
  is involved. Bytes read from the controller are \<^typ>\<open>8 word\<close>, port numbers and register
  offsets \<^typ>\<open>32 word\<close>. C \<^verbatim>\<open>double\<close> values are modelled as the rationals they denote,
  with the IEEE-754 binary64 rounding (to nearest, ties to even) applied after every
  arithmetic operation. Sleeps (\<^verbatim>\<open>usleep\<close>) and console output are not modelled.
\<close>

section \<open>Arithmetic of the C types\<close>

subsection \<open>binary64 rounding\<close>

text \<open>
  \<open>ilog2 x\<close> is the binary exponent of a positive rational: \<open>2 ^ ilog2 x \<le> x < 2 ^ (ilog2 x + 1)\<close>.
  \<open>rne\<close> rounds to the nearest integer, ties to even. \<open>rnd\<close> rounds a rational to 53
  significant bits; overflow and subnormal numbers are outside the model (the magnitudes the
  program produces are zero or lie between \<open>1 / 256\<close> and \<open>4096\<close>).
\<close>

definition ilog2 :: "rat \<Rightarrow> int" where
  "ilog2 x = (if 1 \<le> x then int (floorlog 2 (nat \<lfloor>x\<rfloor>)) - 1
              else - int (floorlog 2 (nat (\<lceil>1 / x\<rceil> - 1))))"

definition rne :: "rat \<Rightarrow> int" where
  "rne s = (let f = \<lfloor>s\<rfloor>; r = s - of_int f
            in if r < 1 / 2 then f else if 1 / 2 < r then f + 1
               else if even f then f else f + 1)"

definition rnd :: "rat \<Rightarrow> rat" where
  "rnd x = (if x = 0 then 0
            else let e = ilog2 \<bar>x\<bar> - 52
                 in of_int (rne (x * power_int 2 (- e))) * power_int 2 e)"

text \<open>The unit roundoff of binary64, used in the error estimates.\<close>

definition uro :: rat where
  "uro = 1 / 2 ^ 53"

text \<open>The conversion \<^verbatim>\<open>(int) d\<close> truncates towards zero.\<close>

definition d2i :: "rat \<Rightarrow> int" where
  "d2i x = (if 0 \<le> x then \<lfloor>x\<rfloor> else \<lceil>x\<rceil>)"

text \<open>C integer division truncates towards zero as well.\<close>

definition c_div :: "int \<Rightarrow> int \<Rightarrow> int" where
  "c_div a b = (if (a < 0) = (b < 0) then \<bar>a\<bar> div \<bar>b\<bar> else - (\<bar>a\<bar> div \<bar>b\<bar>))"

text \<open>
  The type \<^verbatim>\<open>int\<close> of the source has 32 bits. Where a sum or a difference of the source can
  leave that range, \<open>int32\<close> takes the two's-complement representative of the mathematical
  result, which is what the compiled program computes.
\<close>

definition int32 :: "int \<Rightarrow> int" where
  "int32 x = (x + 2147483648) mod 4294967296 - 2147483648"

definition EXIT_SUCCESS :: int where
  "EXIT_SUCCESS = 0"

definition EXIT_FAILURE :: int where
  "EXIT_FAILURE = 1"

section \<open>Constants of the register map\<close>

definition EC_SC :: "32 word" where "EC_SC = 0x66"
definition EC_DATA :: "32 word" where "EC_DATA = 0x62"
definition IBF :: "32 word" where "IBF = 1"
definition OBF :: "32 word" where "OBF = 0"
definition EC_SC_READ_CMD :: "8 word" where "EC_SC_READ_CMD = 0x80"
definition EC_REG_SIZE :: nat where "EC_REG_SIZE = 0x100"
definition EC_REG_CPU_FAN_DUTY :: "32 word" where "EC_REG_CPU_FAN_DUTY = 0xCE"
definition EC_REG_CPU_TEMP :: "32 word" where "EC_REG_CPU_TEMP = 0x07"
definition EC_REG_CPU_FAN_RPMS_HI :: "32 word" where "EC_REG_CPU_FAN_RPMS_HI = 0xD0"
definition EC_REG_CPU_FAN_RPMS_LO :: "32 word" where "EC_REG_CPU_FAN_RPMS_LO = 0xD1"
definition EC_REG_GPU_FAN_RPMS_HI :: "32 word" where "EC_REG_GPU_FAN_RPMS_HI = 0xD2"
definition EC_REG_GPU_FAN_RPMS_LO :: "32 word" where "EC_REG_GPU_FAN_RPMS_LO = 0xD3"
definition EC_REG_GPU_TEMP :: "32 word" where "EC_REG_GPU_TEMP = 0xCD"
definition EC_REG_GPU_FAN_DUTY :: "32 word" where "EC_REG_GPU_FAN_DUTY = 0xCF"
definition TEMP_FAIL_THRESHOLD :: int where "TEMP_FAIL_THRESHOLD = 15"

section \<open>The machine: I/O ports and hwmon attribute files\<close>

text \<open>
  The five sysfs attributes the program opens below \<^verbatim>\<open>/sys/class/hwmon/hwmon<n>/\<close>.
\<close>

datatype hwmon_attr = Temp1_input | Pwm1 | Pwm2 | Fan1_input | Fan2_input

text \<open>
  The environment is fixed for a run: the two globals set at start-up, and what the run
  will read. Every input operation (a port read or the opening of a hwmon file) takes the
  next tick: \<open>port_in p t\<close> is the byte that \<^verbatim>\<open>inb(p)\<close> returns at tick \<open>t\<close>, and
  \<open>hwmon_in n a t\<close> describes the attribute file \<open>a\<close> of \<^verbatim>\<open>hwmon<n>\<close> at tick \<open>t\<close>: \<open>None\<close> when
  \<^verbatim>\<open>fopen\<close> fails, otherwise the integer that \<^verbatim>\<open>sscanf("%d")\<close> finds in its first line.
\<close>

record env =
  use_hwmon_interface :: int
  hwmon_interface_num :: int
  port_in :: "32 word \<Rightarrow> nat \<Rightarrow> 8 word"
  hwmon_in :: "int \<Rightarrow> hwmon_attr \<Rightarrow> nat \<Rightarrow> int option"

text \<open>
  The mutable part: the tick, the log of port writes (\<^verbatim>\<open>outb(value, port)\<close>, oldest first)
  and the log of numbers printed into hwmon files.
\<close>

record sys =
  ticks :: nat
  outs :: "(8 word \<times> 32 word) list"
  hwmon_outs :: "(hwmon_attr \<times> int) list"

definition inb :: "env \<Rightarrow> 32 word \<Rightarrow> sys \<Rightarrow> 8 word \<times> sys" where
  "inb ev port st = (port_in ev port (ticks st), st\<lparr>ticks := Suc (ticks st)\<rparr>)"

definition hwmon_fopen :: "env \<Rightarrow> hwmon_attr \<Rightarrow> sys \<Rightarrow> int option \<times> sys" where
  "hwmon_fopen ev a st =
     (hwmon_in ev (hwmon_interface_num ev) a (ticks st), st\<lparr>ticks := Suc (ticks st)\<rparr>)"

definition outb :: "8 word \<Rightarrow> 32 word \<Rightarrow> sys \<Rightarrow> sys" where
  "outb v port st = st\<lparr>outs := outs st @ [(v, port)]\<rparr>"

section \<open>The port handshake\<close>

text \<open>
  \<^verbatim>\<open>while ((((data >> flag) & 0x1) != value) && (i++ < 100)) { usleep(1000); data = inb(port); }\<close>
  The second conjunct is evaluated, and \<open>i\<close> incremented, only when the first one holds.
  The function returns the last byte read, the final \<open>i\<close> and the machine state.
\<close>

function ec_io_wait_loop ::
  "env \<Rightarrow> 32 word \<Rightarrow> 32 word \<Rightarrow> int \<Rightarrow> 8 word \<Rightarrow> int \<Rightarrow> sys \<Rightarrow> 8 word \<times> int \<times> sys" where
  "ec_io_wait_loop ev port flag val data i st =
     (if uint (drop_bit (unat flag) data AND 1) \<noteq> val
      then (if i < 100
            then (let (data', st') = inb ev port st
                  in ec_io_wait_loop ev port flag val data' (i + 1) st')
            else (data, i + 1, st))
      else (data, i, st))"
  by pat_completeness auto
termination
  by (relation "measure (\<lambda>(ev, port, flag, val, data, i, st). nat (100 - i))") auto

definition ec_io_wait :: "env \<Rightarrow> 32 word \<Rightarrow> 32 word \<Rightarrow> int \<Rightarrow> sys \<Rightarrow> int \<times> sys" where
  "ec_io_wait ev port flag val st =
     (let (data, st1) = inb ev port st;
          (data', i, st2) = ec_io_wait_loop ev port flag val data 0 st1
      in if i \<ge> 1000 then (EXIT_FAILURE, st2) else (EXIT_SUCCESS, st2))"

text \<open>The results of the three waits are discarded by the source.\<close>

definition ec_io_read :: "env \<Rightarrow> 32 word \<Rightarrow> sys \<Rightarrow> 8 word \<times> sys" where
  "ec_io_read ev port st =
     (let (r1, st1) = ec_io_wait ev EC_SC IBF 0 st;
          st2 = outb EC_SC_READ_CMD EC_SC st1;
          (r2, st3) = ec_io_wait ev EC_SC IBF 0 st2;
          st4 = outb (ucast port) EC_DATA st3;
          (r3, st5) = ec_io_wait ev EC_SC OBF 1 st4
      in inb ev EC_DATA st5)"

definition ec_io_do :: "env \<Rightarrow> 32 word \<Rightarrow> 32 word \<Rightarrow> 8 word \<Rightarrow> sys \<Rightarrow> int \<times> sys" where
  "ec_io_do ev cmd port v st =
     (let (r1, st1) = ec_io_wait ev EC_SC IBF 0 st;
          st2 = outb (ucast cmd) EC_SC st1;
          (r2, st3) = ec_io_wait ev EC_SC IBF 0 st2;
          st4 = outb (ucast port) EC_DATA st3;
          (r3, st5) = ec_io_wait ev EC_SC IBF 0 st4;
          st6 = outb v EC_DATA st5
      in ec_io_wait ev EC_SC IBF 0 st6)"

section \<open>Telemetry codec\<close>

text \<open>\<^verbatim>\<open>(int) ((double) raw_duty / 255.0 * 100.0 + 0.5)\<close>\<close>

definition calculate_fan_duty :: "int \<Rightarrow> int" where
  "calculate_fan_duty raw_duty = d2i (rnd (rnd (rnd (of_int raw_duty / 255) * 100) + 1 / 2))"

text \<open>
  The value \<^verbatim>\<open>v_i\<close> that both write functions compute:
  \<^verbatim>\<open>double v_d = ((double) duty_percentage) / 100.0 * 255.0 + 0.5; int v_i = (int) v_d;\<close>
\<close>

definition fan_duty_raw :: "int \<Rightarrow> int" where
  "fan_duty_raw duty_percentage =
     d2i (rnd (rnd (rnd (of_int duty_percentage / 100) * 255) + 1 / 2))"

text \<open>
  \<^verbatim>\<open>int raw_rpm = (raw_rpm_high << 8) + raw_rpm_low; return raw_rpm > 0 ? (2156220 / raw_rpm) : 0;\<close>
  The callers pass two register bytes, for which the shift is a multiplication by 256.
\<close>

definition calculate_fan_rpms :: "int \<Rightarrow> int \<Rightarrow> int" where
  "calculate_fan_rpms raw_rpm_high raw_rpm_low =
     (let raw_rpm = raw_rpm_high * 256 + raw_rpm_low
      in if raw_rpm > 0 then c_div 2156220 raw_rpm else 0)"

section \<open>Queries and writes\<close>

definition ec_query_cpu_temp :: "env \<Rightarrow> sys \<Rightarrow> int \<times> sys" where
  "ec_query_cpu_temp ev st =
     (if use_hwmon_interface ev \<noteq> 0
      then (case hwmon_fopen ev Temp1_input st of
              (None, st') \<Rightarrow> (99, st')
            | (Some v, st') \<Rightarrow> (c_div v 1000, st'))
      else (let (b, st') = ec_io_read ev EC_REG_CPU_TEMP st in (uint b, st')))"

definition ec_query_gpu_temp :: "env \<Rightarrow> sys \<Rightarrow> int \<times> sys" where
  "ec_query_gpu_temp ev st = (let (b, st') = ec_io_read ev EC_REG_GPU_TEMP st in (uint b, st'))"

definition ec_query_cpu_fan_duty :: "env \<Rightarrow> sys \<Rightarrow> int \<times> sys" where
  "ec_query_cpu_fan_duty ev st =
     (if use_hwmon_interface ev \<noteq> 0
      then (case hwmon_fopen ev Pwm1 st of
              (None, st') \<Rightarrow> (99, st')
            | (Some v, st') \<Rightarrow> (calculate_fan_duty v, st'))
      else (let (raw_duty, st') = ec_io_read ev EC_REG_CPU_FAN_DUTY st
            in (calculate_fan_duty (uint raw_duty), st')))"

definition ec_query_cpu_fan_rpms :: "env \<Rightarrow> sys \<Rightarrow> int \<times> sys" where
  "ec_query_cpu_fan_rpms ev st =
     (if use_hwmon_interface ev \<noteq> 0
      then (case hwmon_fopen ev Fan1_input st of
              (None, st') \<Rightarrow> (99, st')
            | (Some v, st') \<Rightarrow> (v, st'))
      else (let (raw_rpm_hi, st1) = ec_io_read ev EC_REG_CPU_FAN_RPMS_HI st;
                (raw_rpm_lo, st2) = ec_io_read ev EC_REG_CPU_FAN_RPMS_LO st1
            in (calculate_fan_rpms (uint raw_rpm_hi) (uint raw_rpm_lo), st2)))"

definition ec_query_gpu_fan_duty :: "env \<Rightarrow> sys \<Rightarrow> int \<times> sys" where
  "ec_query_gpu_fan_duty ev st =
     (if use_hwmon_interface ev \<noteq> 0
      then (case hwmon_fopen ev Pwm2 st of
              (None, st') \<Rightarrow> (99, st')
            | (Some v, st') \<Rightarrow> (calculate_fan_duty v, st'))
      else (let (raw_duty, st') = ec_io_read ev EC_REG_GPU_FAN_DUTY st
            in (calculate_fan_duty (uint raw_duty), st')))"

definition ec_query_gpu_fan_rpms :: "env \<Rightarrow> sys \<Rightarrow> int \<times> sys" where
  "ec_query_gpu_fan_rpms ev st =
     (if use_hwmon_interface ev \<noteq> 0
      then (case hwmon_fopen ev Fan2_input st of
              (None, st') \<Rightarrow> (99, st')
            | (Some v, st') \<Rightarrow> (v, st'))
      else (let (raw_rpm_hi, st1) = ec_io_read ev EC_REG_GPU_FAN_RPMS_HI st;
                (raw_rpm_lo, st2) = ec_io_read ev EC_REG_GPU_FAN_RPMS_LO st1
            in (calculate_fan_rpms (uint raw_rpm_hi) (uint raw_rpm_lo), st2)))"

text \<open>
  In hwmon mode the number is printed into the PWM file; in port mode the value goes through
  the vendor command \<^verbatim>\<open>0x99\<close> with the fan selector as sub-address.
\<close>

definition ec_write_cpu_fan_duty :: "env \<Rightarrow> int \<Rightarrow> sys \<Rightarrow> int \<times> sys" where
  "ec_write_cpu_fan_duty ev duty_percentage st =
     (if duty_percentage < 0 \<or> duty_percentage > 100 then (EXIT_FAILURE, st)
      else let v_i = fan_duty_raw duty_percentage
           in if use_hwmon_interface ev \<noteq> 0
              then (case hwmon_fopen ev Pwm1 st of
                      (None, st') \<Rightarrow> (99, st')
                    | (Some old, st') \<Rightarrow>
                        (0, st'\<lparr>hwmon_outs := hwmon_outs st' @ [(Pwm1, v_i)]\<rparr>))
              else ec_io_do ev 0x99 0x01 (word_of_int v_i) st)"

definition ec_write_gpu_fan_duty :: "env \<Rightarrow> int \<Rightarrow> sys \<Rightarrow> int \<times> sys" where
  "ec_write_gpu_fan_duty ev duty_percentage st =
     (if duty_percentage < 0 \<or> duty_percentage > 100 then (EXIT_FAILURE, st)
      else let v_i = fan_duty_raw duty_percentage
           in if use_hwmon_interface ev \<noteq> 0
              then (case hwmon_fopen ev Pwm2 st of
                      (None, st') \<Rightarrow> (99, st')
                    | (Some old, st') \<Rightarrow>
                        (0, st'\<lparr>hwmon_outs := hwmon_outs st' @ [(Pwm2, v_i)]\<rparr>))
              else ec_io_do ev 0x99 0x02 (word_of_int v_i) st)"

section \<open>The shared control block and the stepped ladder\<close>

record share_info =
  exit :: int
  cpu_temp :: int
  gpu_temp :: int
  fan_duty :: int
  fan_rpms :: int
  auto_duty :: int
  auto_duty_val :: int
  manual_next_fan_duty :: int
  manual_prev_fan_duty :: int

definition main_init_share :: share_info where
  "main_init_share =
     \<lparr>exit = 0, cpu_temp = 0, gpu_temp = 0, fan_duty = 0, fan_rpms = 0, auto_duty = 1,
      auto_duty_val = 0, manual_next_fan_duty = 0, manual_prev_fan_duty = 0\<rparr>"

definition ec_auto_duty_adjust :: "share_info \<Rightarrow> int" where
  "ec_auto_duty_adjust sh =
     (let temp = max (cpu_temp sh) (gpu_temp sh);
          duty = fan_duty sh
      in if temp \<ge> 80 \<and> duty < 100 then 100
         else if temp \<ge> 70 \<and> duty < 90 then 90
         else if temp \<ge> 60 \<and> duty < 80 then 80
         else if temp \<ge> 55 \<and> duty < 70 then 70
         else if temp \<ge> 40 \<and> duty < 60 then 60
         else if temp \<ge> 30 \<and> duty < 50 then 50
         else if temp \<ge> 20 \<and> duty < 40 then 40
         else if temp \<ge> 10 \<and> duty < 30 then 30
         else if temp \<le> 15 \<and> duty > 30 then 30
         else if temp \<le> 25 \<and> duty > 40 then 40
         else if temp \<le> 35 \<and> duty > 50 then 50
         else if temp \<le> 45 \<and> duty > 60 then 60
         else if temp \<le> 55 \<and> duty > 70 then 70
         else if temp \<le> 65 \<and> duty > 80 then 80
         else if temp \<le> 75 \<and> duty > 90 then 90
         else 100)"

subsection \<open>The presentation side\<close>

definition ui_command_set_fan :: "int \<Rightarrow> share_info \<Rightarrow> share_info" where
  "ui_command_set_fan fan_duty_val sh =
     (if fan_duty_val = 0
      then sh\<lparr>auto_duty := 1, auto_duty_val := 0, manual_next_fan_duty := 0\<rparr>
      else sh\<lparr>auto_duty := 0, auto_duty_val := 0, manual_next_fan_duty := fan_duty_val\<rparr>)"

text \<open>\<^verbatim>\<open>main\<close>, after \<^verbatim>\<open>main_ui_worker\<close> has returned: \<^verbatim>\<open>share_info->exit = 1\<close>.\<close>

definition main_quit :: "share_info \<Rightarrow> share_info" where
  "main_quit sh = sh\<lparr>exit := 1\<rparr>"

definition main_on_sigterm :: "share_info \<Rightarrow> share_info" where
  "main_on_sigterm sh = sh\<lparr>exit := 1\<rparr>"

subsection \<open>The privileged worker\<close>

definition ec_on_sigterm :: "share_info \<Rightarrow> share_info" where
  "ec_on_sigterm sh = sh\<lparr>exit := 1\<rparr>"

text \<open>The three parts of one pass of the loop of \<^verbatim>\<open>main_ec_worker\<close>, as the source labels them.\<close>

definition worker_write_ec :: "env \<Rightarrow> share_info \<times> sys \<Rightarrow> share_info \<times> sys" where
  "worker_write_ec ev = (\<lambda>(sh, st).
     let new_fan_duty = manual_next_fan_duty sh
     in if new_fan_duty \<noteq> 0 \<and> new_fan_duty \<noteq> manual_prev_fan_duty sh
        then (sh\<lparr>manual_prev_fan_duty := new_fan_duty\<rparr>,
              snd (ec_write_cpu_fan_duty ev new_fan_duty st))
        else (sh, st))"

text \<open>\<open>buf\<close> holds the bytes that \<^verbatim>\<open>fread\<close> delivered from the debug file.\<close>

definition worker_read_ec :: "8 word list \<Rightarrow> share_info \<Rightarrow> share_info" where
  "worker_read_ec buf sh =
     (if length buf = EC_REG_SIZE
      then sh\<lparr>cpu_temp := uint (buf ! unat EC_REG_CPU_TEMP),
              gpu_temp := uint (buf ! unat EC_REG_GPU_TEMP),
              fan_duty := calculate_fan_duty (uint (buf ! unat EC_REG_CPU_FAN_DUTY)),
              fan_rpms := calculate_fan_rpms (uint (buf ! unat EC_REG_CPU_FAN_RPMS_HI))
                            (uint (buf ! unat EC_REG_CPU_FAN_RPMS_LO))\<rparr>
      else sh)"

definition worker_auto_ec :: "env \<Rightarrow> share_info \<times> sys \<Rightarrow> share_info \<times> sys" where
  "worker_auto_ec ev = (\<lambda>(sh, st).
     if auto_duty sh = 1
     then (let next_duty = ec_auto_duty_adjust sh
           in if next_duty \<noteq> 0 \<and> next_duty \<noteq> auto_duty_val sh
              then (sh\<lparr>auto_duty_val := next_duty\<rparr>,
                    snd (ec_write_cpu_fan_duty ev next_duty st))
              else (sh, st))
     else (sh, st))"

text \<open>
  One pass of the loop; \<open>None\<close> when the loop ends (exit flag set, parent gone, or the
  debug file cannot be opened).
\<close>

definition main_ec_worker_pass ::
  "env \<Rightarrow> bool \<Rightarrow> 8 word list option \<Rightarrow> share_info \<times> sys \<Rightarrow> (share_info \<times> sys) option" where
  "main_ec_worker_pass ev parent_alive io_fd = (\<lambda>(sh, st).
     if exit sh \<noteq> 0 then None
     else case io_fd of
       None \<Rightarrow> None
     | Some buf \<Rightarrow>
         if \<not> parent_alive then None
         else (let (sh1, st1) = worker_write_ec ev (sh, st);
                   sh2 = worker_read_ec buf sh1
               in Some (worker_auto_ec ev (sh2, st1))))"

subsection \<open>Interleavings of the two processes on the shared block\<close>

datatype actor = Worker | Presentation

text \<open>
  A step is one assignment to a field of the shared block, made by the process whose code
  contains it. The worker's assignments are those of \<^verbatim>\<open>main_ec_worker\<close> and \<^verbatim>\<open>ec_on_sigterm\<close>,
  the presentation side's those of \<^verbatim>\<open>ui_command_set_fan\<close>, \<^verbatim>\<open>main\<close> and \<^verbatim>\<open>main_on_sigterm\<close>;
  the source has no other assignment to the block after \<^verbatim>\<open>main_init_share\<close>. The value assigned
  may rest on fields read some steps earlier, so the rules do not tie it to the present
  contents of fields the other process writes.
\<close>

inductive step :: "actor \<Rightarrow> share_info \<Rightarrow> share_info \<Rightarrow> bool" where
  w_prev: "new_fan_duty \<noteq> 0 \<Longrightarrow> step Worker sh (sh\<lparr>manual_prev_fan_duty := new_fan_duty\<rparr>)"
| w_cpu_temp: "step Worker sh (sh\<lparr>cpu_temp := uint (b :: 8 word)\<rparr>)"
| w_gpu_temp: "step Worker sh (sh\<lparr>gpu_temp := uint (b :: 8 word)\<rparr>)"
| w_fan_duty: "step Worker sh (sh\<lparr>fan_duty := calculate_fan_duty (uint (b :: 8 word))\<rparr>)"
| w_fan_rpms:
    "step Worker sh (sh\<lparr>fan_rpms := calculate_fan_rpms (uint (hi :: 8 word)) (uint (lo :: 8 word))\<rparr>)"
| w_auto_val:
    "ec_auto_duty_adjust sh \<noteq> 0 \<Longrightarrow>
     step Worker sh (sh\<lparr>auto_duty_val := ec_auto_duty_adjust sh\<rparr>)"
| w_exit: "step Worker sh (sh\<lparr>exit := 1\<rparr>)"
| p_auto_duty: "step Presentation sh (sh\<lparr>auto_duty := (if fan_duty_val = (0::int) then 1 else 0)\<rparr>)"
| p_auto_val: "step Presentation sh (sh\<lparr>auto_duty_val := 0\<rparr>)"
| p_manual_next: "step Presentation sh (sh\<lparr>manual_next_fan_duty := fan_duty_val\<rparr>)"
| p_exit: "step Presentation sh (sh\<lparr>exit := 1\<rparr>)"

text \<open>An interleaving is any finite sequence of steps of the two processes.\<close>

inductive interleaving :: "share_info \<Rightarrow> (actor \<times> share_info) list \<Rightarrow> share_info \<Rightarrow> bool" where
  il_nil: "interleaving sh [] sh"
| il_step: "step a sh sh' \<Longrightarrow> interleaving sh' tr sh'' \<Longrightarrow> interleaving sh ((a, sh') # tr) sh''"

subsection \<open>The ladder as the specification words it\<close>

text \<open>
  The threshold tables of the specification, read literally: each row tests the temperature
  only. Rising rows first, then falling rows, else 100.
\<close>

definition ladder_spec :: "int \<Rightarrow> int" where
  "ladder_spec temp =
     (if temp \<ge> 80 then 100 else if temp \<ge> 70 then 90 else if temp \<ge> 60 then 80
      else if temp \<ge> 55 then 70 else if temp \<ge> 40 then 60 else if temp \<ge> 30 then 50
      else if temp \<ge> 20 then 40 else if temp \<ge> 10 then 30
      else if temp \<le> 15 then 30 else if temp \<le> 25 then 40 else if temp \<le> 35 then 50
      else if temp \<le> 45 then 60 else if temp \<le> 55 then 70 else if temp \<le> 65 then 80
      else if temp \<le> 75 then 90 else 100)"

text \<open>
  The same tables as data, with the guard on the current duty that each row of the source
  carries: a rising row \<open>(t, d)\<close> fires when \<open>temp \<ge> t\<close> and \<open>duty < d\<close>, a falling row when
  \<open>temp \<le> t\<close> and \<open>duty > d\<close>.
\<close>

definition rising_rows :: "(int \<times> int) list" where
  "rising_rows = [(80, 100), (70, 90), (60, 80), (55, 70), (40, 60), (30, 50), (20, 40), (10, 30)]"

definition falling_rows :: "(int \<times> int) list" where
  "falling_rows = [(15, 30), (25, 40), (35, 50), (45, 60), (55, 70), (65, 80), (75, 90)]"

definition ladder_guarded :: "int \<Rightarrow> int \<Rightarrow> int" where
  "ladder_guarded temp duty =
     (case find (\<lambda>(t, d). temp \<ge> t \<and> duty < d) rising_rows of
        Some (t, d) \<Rightarrow> d
      | None \<Rightarrow>
          (case find (\<lambda>(t, d). temp \<le> t \<and> duty > d) falling_rows of
             Some (t, d) \<Rightarrow> d
           | None \<Rightarrow> 100))"

section \<open>The dual-sensor loop \<^verbatim>\<open>autoset_cpu_gpu\<close>\<close>

text \<open>
  The locals and statics of \<^verbatim>\<open>autoset_cpu_gpu\<close> that live across iterations. The two-element
  arrays \<^verbatim>\<open>current\<close> and \<^verbatim>\<open>repeatCheck\<close> are pairs (CPU first, GPU second).
\<close>

record session =
  initial :: int
  current :: "int \<times> int"
  lastCPU :: rat
  lastGPU :: rat
  repeatCheck :: "int \<times> int"
  lastfail :: int
  missing :: int
  ctrl_setting_offset_cpu :: int
  ctrl_setting_offset_gpu :: int
  ctrl_setting_min_cpu :: int
  ctrl_setting_min_gpu :: int
  ctrl_setting_force_cpu :: int
  ctrl_setting_force_gpu :: int
  ctrl_check :: int

definition session_init :: session where
  "session_init =
     \<lparr>initial = 1, current = (0, 0), lastCPU = 0, lastGPU = 0, repeatCheck = (0, 0),
      lastfail = 0, missing = 0,
      ctrl_setting_offset_cpu = 0, ctrl_setting_offset_gpu = 0,
      ctrl_setting_min_cpu = 0, ctrl_setting_min_gpu = 0,
      ctrl_setting_force_cpu = - 1, ctrl_setting_force_gpu = - 1, ctrl_check = 0\<rparr>"

subsection \<open>The control file\<close>

text \<open>
  A line of \<^verbatim>\<open>/tmp/clevo_fan_ctrl\<close> that the \<^verbatim>\<open>strncmp\<close>/\<^verbatim>\<open>sscanf\<close> pairs accept is given by
  its key and its number; other lines change nothing and are left out of the list.
\<close>

datatype ctrl_key = Offset_cpu | Offset_gpu | Min_cpu | Min_gpu | Force_cpu | Force_gpu

fun ctrl_line :: "session \<Rightarrow> ctrl_key \<times> int \<Rightarrow> session" where
  "ctrl_line ss (Offset_cpu, v) = ss\<lparr>ctrl_setting_offset_cpu := v\<rparr>"
| "ctrl_line ss (Offset_gpu, v) = ss\<lparr>ctrl_setting_offset_gpu := v\<rparr>"
| "ctrl_line ss (Min_cpu, v) = ss\<lparr>ctrl_setting_min_cpu := v\<rparr>"
| "ctrl_line ss (Min_gpu, v) = ss\<lparr>ctrl_setting_min_gpu := v\<rparr>"
| "ctrl_line ss (Force_cpu, v) = ss\<lparr>ctrl_setting_force_cpu := v\<rparr>"
| "ctrl_line ss (Force_gpu, v) = ss\<lparr>ctrl_setting_force_gpu := v\<rparr>"

text \<open>
  \<^verbatim>\<open>if (ctrl_check++ >= 3) { ctrl_check = 0; ctrl_file = fopen(...); if (ctrl_file != NULL) ... }\<close>
  \<open>None\<close> is a control file that cannot be opened.
\<close>

definition ctrl_reload :: "(ctrl_key \<times> int) list option \<Rightarrow> session \<Rightarrow> session" where
  "ctrl_reload ctrl_file ss =
     (if ctrl_check ss \<ge> 3
      then (case ctrl_file of
              None \<Rightarrow> ss\<lparr>ctrl_check := 0\<rparr>
            | Some ls \<Rightarrow> foldl ctrl_line (ss\<lparr>ctrl_check := 0\<rparr>) ls)
      else ss\<lparr>ctrl_check := ctrl_check ss + 1\<rparr>)"

subsection \<open>Reading the CPU temperature\<close>

text \<open>
  \<^verbatim>\<open>for (int tries = 0;tries < 3;tries++) { cputemp = ec_query_cpu_temp();\<close>
  \<^verbatim>\<open>  if (cputemp < 100 || cputemp < lastCPU + 20) break; }\<close>
  The first argument counts the tries that are left; \<open>prev\<close> is the reading of the try before.
\<close>

fun cpu_temp_tries :: "nat \<Rightarrow> env \<Rightarrow> rat \<Rightarrow> int \<Rightarrow> sys \<Rightarrow> int \<times> sys" where
  "cpu_temp_tries 0 ev lastC prev st = (prev, st)"
| "cpu_temp_tries (Suc n) ev lastC prev st =
     (let (t, st') = ec_query_cpu_temp ev st
      in if of_int t < (100::rat) \<or> of_int t < rnd (lastC + 20) then (t, st')
         else cpu_temp_tries n ev lastC t st')"

subsection \<open>From temperatures to duty targets\<close>

text \<open>\<^verbatim>\<open>if (cputemp < lastCPU - 10) cputemp = lastCPU - 10;\<close>\<close>

definition cpu_clamp :: "rat \<Rightarrow> int \<Rightarrow> rat" where
  "cpu_clamp lastC cpu_read =
     (if of_int cpu_read < rnd (lastC - 10) then rnd (lastC - 10) else of_int cpu_read)"

definition gpu_rescale :: "rat \<Rightarrow> rat" where
  "gpu_rescale gputemp =
     (if gputemp \<le> 65 then rnd (gputemp - 10)
      else if gputemp < 75 then rnd (gputemp - rnd (75 - gputemp))
      else gputemp)"

definition blend :: "rat \<Rightarrow> rat \<Rightarrow> rat \<times> rat" where
  "blend cputemp gputemptmp =
     (if cputemp > gputemptmp
      then (cputemp, rnd (rnd (rnd (2 * gputemptmp) + cputemp) / 3))
      else (rnd (rnd (rnd (2 * cputemp) + gputemptmp) / 3), gputemptmp))"

text \<open>\<^verbatim>\<open>if (lastCPU > 30) avg[0] = (2 * avg[0] + lastCPU) / 3;\<close>\<close>

definition smooth :: "rat \<Rightarrow> rat \<Rightarrow> rat" where
  "smooth lastT a = (if lastT > 30 then rnd (rnd (rnd (2 * a) + lastT) / 3) else a)"

definition duty_curve :: "rat \<Rightarrow> int" where
  "duty_curve a =
     (if a \<le> 40 then 0
      else if a \<le> 45 then 15
      else if a \<le> 75 then d2i (rnd (a - 30))
      else if a \<le> 90 then d2i (rnd (rnd (rnd (a - 75) * 3) + 45))
      else 100)"

text \<open>
  The control-file overrides of one channel, in the order of the source:
  \<^verbatim>\<open>if (offset) setDuty += offset; if (min > setDuty) setDuty = min;\<close>
  \<^verbatim>\<open>if (force != -1) setDuty = force; if (setDuty > 100) setDuty = 100;\<close>
  The sum is one of the type \<^verbatim>\<open>int\<close>, hence \<open>int32\<close>.
\<close>

definition ctrl_override :: "int \<Rightarrow> int \<Rightarrow> int \<Rightarrow> int \<Rightarrow> int" where
  "ctrl_override setDuty offset minimum force =
     (let d1 = (if offset \<noteq> 0 then int32 (setDuty + offset) else setDuty);
          d2 = (if minimum > d1 then minimum else d1);
          d3 = (if force \<noteq> - 1 then force else d2)
      in if d3 > 100 then 100 else d3)"

text \<open>
  The rate-limiting policy of one channel: from the channel's current duty, its target and
  its repeat counter to \<^verbatim>\<open>doSet[i]\<close> and the new counter. The operands \<^verbatim>\<open>current[i] + 1\<close> and
  \<^verbatim>\<open>current[i] - 5\<close> of the comparisons are of the type \<^verbatim>\<open>int\<close>; the counter is incremented
  only when it is below 4.
\<close>

definition rate_limit :: "int \<Rightarrow> int \<Rightarrow> int \<Rightarrow> int \<times> int" where
  "rate_limit cur setDuty rc =
     (let (doSet, rc') =
        (if cur = 0 \<and> setDuty \<noteq> 0 then (1, rc)
         else if setDuty > cur \<and> setDuty > 50 then (1, rc)
         else if setDuty > int32 (cur + 1) then (1, rc)
         else if setDuty < int32 (cur - 5) then (1, rc)
         else if setDuty < cur then (if rc \<ge> 4 then (1, rc) else (0, rc + 1))
         else (0::int, rc))
      in if doSet \<noteq> 0 then (doSet, 0) else (doSet, rc'))"

text \<open>
  The first pass applies both channels; later a disagreement between the duty the hardware
  reports and \<^verbatim>\<open>current\<close> applies both and keeps targets from falling below \<^verbatim>\<open>current\<close>.
  Result: the new \<^verbatim>\<open>initial\<close>, \<^verbatim>\<open>doSet\<close> and \<^verbatim>\<open>setDuty\<close>.
\<close>

definition resync ::
  "int \<Rightarrow> int \<times> int \<Rightarrow> int \<times> int \<Rightarrow> int \<times> int \<Rightarrow> int \<times> int
   \<Rightarrow> int \<times> (int \<times> int) \<times> (int \<times> int)" where
  "resync ini cur_setting cur doSet setDuty =
     (if ini \<noteq> 0 then (0, (1, 1), setDuty)
      else if fst cur_setting \<noteq> fst cur \<or> snd cur_setting \<noteq> snd cur
      then (ini, (1, 1),
            (if fst setDuty < fst cur then fst cur else fst setDuty,
             if snd setDuty < snd cur then snd cur else snd setDuty))
      else (ini, doSet, setDuty))"

text \<open>
  The temperature-floor fault. \<open>cputemp\<close> is the reading after \<open>cpu_clamp\<close>. Result: the new
  \<^verbatim>\<open>lastfail\<close>, \<^verbatim>\<open>doSet\<close> and \<^verbatim>\<open>setDuty\<close>.
\<close>

definition fault_check ::
  "rat \<Rightarrow> rat \<Rightarrow> int \<Rightarrow> int \<times> int \<Rightarrow> int \<times> int \<Rightarrow> int \<times> (int \<times> int) \<times> (int \<times> int)" where
  "fault_check cputemp gputemp lf doSet setDuty =
     (if cputemp < of_int TEMP_FAIL_THRESHOLD \<or> gputemp < of_int TEMP_FAIL_THRESHOLD
      then (if lf \<ge> 1
            then (lf, (1, 1),
                  (if fst setDuty < 50 then 50 else fst setDuty,
                   if snd setDuty < 50 then 50 else snd setDuty))
            else (lf + 1, (0, 0), setDuty))
      else (0, doSet, setDuty))"

text \<open>
  Lines 247 to 269 of the source: the two smoothed temperatures \<^verbatim>\<open>avg[0]\<close> and \<^verbatim>\<open>avg[1]\<close>, from
  the GPU token and the CPU reading after the retries.
\<close>

definition smoothed :: "session \<Rightarrow> int \<Rightarrow> int \<Rightarrow> rat \<times> rat" where
  "smoothed ss gpu_token cpu_read =
     (let gputemp = of_int gpu_token;
          cputemp = cpu_clamp (lastCPU ss) cpu_read;
          gputemptmp = gpu_rescale gputemp;
          (b0, b1) = blend cputemp gputemptmp
      in (smooth (lastCPU ss) b0, smooth (lastGPU ss) b1))"

text \<open>Lines 273 to 289: the duty targets of the two channels after the overrides.\<close>

definition override_targets :: "session \<Rightarrow> int \<Rightarrow> int \<Rightarrow> int \<times> int" where
  "override_targets ss gpu_token cpu_read =
     (let (avg0, avg1) = smoothed ss gpu_token cpu_read
      in (ctrl_override (duty_curve avg0) (ctrl_setting_offset_cpu ss)
            (ctrl_setting_min_cpu ss) (ctrl_setting_force_cpu ss),
          ctrl_override (duty_curve avg1) (ctrl_setting_offset_gpu ss)
            (ctrl_setting_min_gpu ss) (ctrl_setting_force_gpu ss)))"

text \<open>
  Lines 247 to 318: from the readings to \<^verbatim>\<open>doSet\<close> and \<^verbatim>\<open>setDuty\<close> as they stand before the fault
  test. The last two arguments are the duties the hardware reports.
\<close>

definition autoset_targets ::
  "session \<Rightarrow> int \<Rightarrow> int \<Rightarrow> int \<Rightarrow> int \<Rightarrow> session \<times> (int \<times> int) \<times> (int \<times> int)" where
  "autoset_targets ss gpu_token cpu_read cur_cpu_setting cur_gpu_setting =
     (let gputemp = (of_int gpu_token :: rat);
          cputemp = cpu_clamp (lastCPU ss) cpu_read;
          (avg0, avg1) = smoothed ss gpu_token cpu_read;
          lastCPU' = (if cputemp \<ge> of_int TEMP_FAIL_THRESHOLD then avg0 else lastCPU ss);
          lastGPU' = (if gputemp \<ge> of_int TEMP_FAIL_THRESHOLD then avg1 else lastGPU ss);
          (sd0, sd1) = override_targets ss gpu_token cpu_read;
          (ds0, rc0) = rate_limit (fst (current ss)) sd0 (fst (repeatCheck ss));
          (ds1, rc1) = rate_limit (snd (current ss)) sd1 (snd (repeatCheck ss));
          (ini, doSet, setDuty) =
             resync (initial ss) (cur_cpu_setting, cur_gpu_setting) (current ss)
               (ds0, ds1) (sd0, sd1)
      in (ss\<lparr>initial := ini, lastCPU := lastCPU', lastGPU := lastGPU',
              repeatCheck := (rc0, rc1)\<rparr>,
          doSet, setDuty))"

text \<open>
  Lines 247 to 337: the targets, then the fault test of lines 320 to 337 on the clamped CPU
  temperature and the GPU token. The result is the session, \<^verbatim>\<open>doSet\<close> and \<^verbatim>\<open>setDuty\<close>.
\<close>

definition autoset_decide ::
  "session \<Rightarrow> int \<Rightarrow> int \<Rightarrow> int \<Rightarrow> int \<Rightarrow> session \<times> (int \<times> int) \<times> (int \<times> int)" where
  "autoset_decide ss gpu_token cpu_read cur_cpu_setting cur_gpu_setting =
     (let (ss1, doSet1, setDuty1) =
             autoset_targets ss gpu_token cpu_read cur_cpu_setting cur_gpu_setting;
          (lf, doSet2, setDuty2) =
             fault_check (cpu_clamp (lastCPU ss) cpu_read) (of_int gpu_token) (lastfail ss)
               doSet1 setDuty1
      in (ss1\<lparr>lastfail := lf\<rparr>, doSet2, setDuty2))"

subsection \<open>Writing the targets\<close>

text \<open>
  Up to three attempts per channel (\<open>i = 0\<close> the CPU fan, otherwise the GPU fan): write,
  and after a successful write read the duty back; stop when it agrees.
\<close>

fun write_verified :: "nat \<Rightarrow> env \<Rightarrow> nat \<Rightarrow> int \<Rightarrow> sys \<Rightarrow> sys" where
  "write_verified 0 ev i d st = st"
| "write_verified (Suc n) ev i d st =
     (let (retVal, st1) = (if i \<noteq> 0 then ec_write_gpu_fan_duty ev d st
                           else ec_write_cpu_fan_duty ev d st)
      in if retVal = EXIT_SUCCESS
         then (let (new_setting, st2) = (if i \<noteq> 0 then ec_query_gpu_fan_duty ev st1
                                         else ec_query_cpu_fan_duty ev st1)
               in if new_setting = d then st2 else write_verified n ev i d st2)
         else write_verified n ev i d st1)"

definition apply_duties ::
  "env \<Rightarrow> int \<times> int \<Rightarrow> int \<times> int \<Rightarrow> session \<times> sys \<Rightarrow> session \<times> sys" where
  "apply_duties ev doSet setDuty = (\<lambda>(ss, st).
     let (ss1, st1) =
           (if fst doSet \<noteq> 0
            then (ss\<lparr>current := (fst setDuty, snd (current ss))\<rparr>,
                  write_verified 3 ev 0 (fst setDuty) st)
            else (ss, st))
     in if snd doSet \<noteq> 0
        then (ss1\<lparr>current := (fst (current ss1), snd setDuty)\<rparr>,
              write_verified 3 ev 1 (snd setDuty) st1)
        else (ss1, st1))"

subsection \<open>The loop\<close>

text \<open>
  What one iteration finds outside the controller: the GPU temperatures that the inner
  read loop takes from standard input (the last one wins, none means \<^verbatim>\<open>found == 0\<close>), and
  the control file.
\<close>

record cycle_in =
  stdin_tokens :: "int list"
  ctrl_file :: "(ctrl_key \<times> int) list option"

text \<open>The body of the \<^verbatim>\<open>while (1)\<close> loop after the test of \<^verbatim>\<open>missing\<close>.\<close>

definition autoset_body :: "env \<Rightarrow> cycle_in \<Rightarrow> session \<times> sys \<Rightarrow> session \<times> sys" where
  "autoset_body ev x = (\<lambda>(ss, st).
     if stdin_tokens x = [] then (ss\<lparr>missing := missing ss + 1\<rparr>, st)
     else (let gpu_token = last (stdin_tokens x);
               ss1 = ctrl_reload (ctrl_file x) ss;
               (cpu_read, st1) = cpu_temp_tries 3 ev (lastCPU ss1) 0 st;
               (cur_cpu_setting, st2) = ec_query_cpu_fan_duty ev st1;
               (cur_gpu_setting, st3) = ec_query_gpu_fan_duty ev st2;
               (ss2, doSet, setDuty) =
                  autoset_decide ss1 gpu_token cpu_read cur_cpu_setting cur_gpu_setting;
               (ss3, st4) = apply_duties ev doSet setDuty (ss2, st3)
           in (ss3\<lparr>missing := 0\<rparr>, st4)))"

text \<open>
  The loop never ends by itself, so it is run on a finite list of iterations' inputs:
  \<open>Exited\<close> is \<^verbatim>\<open>exit(code)\<close>, \<open>Running\<close> the state in which the next iteration would enter the
  body. The test of \<^verbatim>\<open>missing\<close> opens every iteration.
\<close>

datatype outcome = Exited int sys | Running session sys

definition liveness_exit :: "env \<Rightarrow> sys \<Rightarrow> outcome" where
  "liveness_exit ev st =
     (let (r1, st1) = ec_write_gpu_fan_duty ev 70 st;
          (r2, st2) = ec_write_cpu_fan_duty ev 70 st1
      in Exited 1 st2)"

fun autoset_loop :: "env \<Rightarrow> cycle_in list \<Rightarrow> session \<times> sys \<Rightarrow> outcome" where
  "autoset_loop ev [] (ss, st) =
     (if missing ss > 5 then liveness_exit ev st else Running ss st)"
| "autoset_loop ev (x # xs) (ss, st) =
     (if missing ss > 5 then liveness_exit ev st
      else autoset_loop ev xs (autoset_body ev x (ss, st)))"

definition autoset_cpu_gpu :: "env \<Rightarrow> bool \<Rightarrow> cycle_in list \<Rightarrow> sys \<Rightarrow> outcome" where
  "autoset_cpu_gpu ev sched_ok xs st =
     (if \<not> sched_ok then Exited EXIT_FAILURE st
      else autoset_loop ev xs (session_init, st))"

section \<open>Concrete inputs and auxiliary predicates\<close>

text \<open>A machine on which nothing has happened yet.\<close>

definition sys0 :: sys where
  "sys0 = \<lparr>ticks = 0, outs = [], hwmon_outs = []\<rparr>"

text \<open>
  Port mode with a controller that never clears its input-buffer-full bit and never sets
  its output-buffer-full bit: the status port always reads \<open>0x02\<close>, the data port \<open>0x2A\<close>.
\<close>

definition stuck_env :: env where
  "stuck_env =
     \<lparr>use_hwmon_interface = 0, hwmon_interface_num = 0,
      port_in = (\<lambda>port t. if port = EC_SC then 0x02 else 0x2A),
      hwmon_in = (\<lambda>n a t. None)\<rparr>"

text \<open>Hwmon mode on interface 3, none of whose attribute files can be opened.\<close>

definition hwmon_env :: env where
  "hwmon_env =
     \<lparr>use_hwmon_interface = 1, hwmon_interface_num = 3,
      port_in = (\<lambda>port t. 0), hwmon_in = (\<lambda>n a t. None)\<rparr>"

text \<open>The attribute file cannot be opened now; the attribute file holds \<open>v\<close> now.\<close>

definition cannot_open :: "env \<Rightarrow> hwmon_attr \<Rightarrow> sys \<Rightarrow> bool" where
  "cannot_open ev a st = (hwmon_in ev (hwmon_interface_num ev) a (ticks st) = None)"

definition holds :: "env \<Rightarrow> hwmon_attr \<Rightarrow> sys \<Rightarrow> int \<Rightarrow> bool" where
  "holds ev a st v = (hwmon_in ev (hwmon_interface_num ev) a (ticks st) = Some v)"

definition tick :: "sys \<Rightarrow> sys" where
  "tick st = st\<lparr>ticks := Suc (ticks st)\<rparr>"

text \<open>A shared block with the given CPU temperature, GPU temperature and fan duty.\<close>

definition telemetry :: "int \<Rightarrow> int \<Rightarrow> int \<Rightarrow> share_info" where
  "telemetry c g d = main_init_share\<lparr>cpu_temp := c, gpu_temp := g, fan_duty := d\<rparr>"

text \<open>
  What a step of process \<open>a\<close> may do to the shared block: the presentation side leaves the
  telemetry fields alone and changes the applied automatic duty only by resetting it to 0;
  the worker leaves the mode flag and the manual duty request alone; nobody clears the
  exit flag. \<open>owned\<close> asks this of every step of a sequence.
\<close>

definition obeys :: "actor \<Rightarrow> share_info \<Rightarrow> share_info \<Rightarrow> bool" where
  "obeys a sh sh' =
     ((a = Presentation \<longrightarrow>
         cpu_temp sh' = cpu_temp sh \<and> gpu_temp sh' = gpu_temp sh \<and>
         fan_duty sh' = fan_duty sh \<and> fan_rpms sh' = fan_rpms sh \<and>
         (auto_duty_val sh' = auto_duty_val sh \<or> auto_duty_val sh' = 0)) \<and>
      (a = Worker \<longrightarrow>
         auto_duty sh' = auto_duty sh \<and>
         manual_next_fan_duty sh' = manual_next_fan_duty sh) \<and>
      (exit sh \<noteq> 0 \<longrightarrow> exit sh' \<noteq> 0))"

fun owned :: "share_info \<Rightarrow> (actor \<times> share_info) list \<Rightarrow> bool" where
  "owned sh [] = True"
| "owned sh ((a, sh') # tr) = (obeys a sh sh' \<and> owned sh' tr)"

text \<open>An iteration of the dual-sensor loop in which standard input delivers nothing.\<close>

definition idle :: cycle_in where
  "idle = \<lparr>stdin_tokens = [], ctrl_file = None\<rparr>"

text \<open>
  The fault test of the dual-sensor loop, on the CPU reading as the loop uses it (after
  \<open>cpu_clamp\<close>) and the GPU token.
\<close>

definition fault_cycle :: "session \<Rightarrow> int \<Rightarrow> int \<Rightarrow> bool" where
  "fault_cycle ss gpu_token cpu_read =
     (cpu_clamp (lastCPU ss) cpu_read < of_int TEMP_FAIL_THRESHOLD
      \<or> gpu_token < TEMP_FAIL_THRESHOLD)"

text \<open>
  The session after a first iteration with CPU reading 70 and GPU token 56 whose two
  targets, 40 and 24, have been applied.
\<close>

definition after_first_cycle :: session where
  "after_first_cycle =
     session_init\<lparr>initial := 0, current := (40, 24), lastCPU := 70, lastGPU := 54\<rparr>"

text \<open>The values of the type \<^verbatim>\<open>int\<close> of the source.\<close>

definition is_int32 :: "int \<Rightarrow> bool" where
  "is_int32 x = (- 2147483648 \<le> x \<and> x \<le> 2147483647)"

text \<open>
  A target \<open>d\<close> that lies below the channel's current duty \<open>cur\<close> by at most 5 points, the
  current duty not being 0; \<open>cur - 5\<close> and \<open>cur + 1\<close> are values of the type \<^verbatim>\<open>int\<close>.
\<close>

definition small_decrease :: "int \<Rightarrow> int \<Rightarrow> bool" where
  "small_decrease cur d =
     (cur \<noteq> 0 \<and> is_int32 (cur - 5) \<and> is_int32 (cur + 1) \<and> cur - 5 \<le> d \<and> d < cur)"

text \<open>
  A cycle in which no rule after the rate-limiting policy changes \<^verbatim>\<open>doSet\<close>: it is not the
  first pass, the duties the hardware reports are the current ones, and the cycle is not
  taken for a fault.
\<close>

definition quiet_cycle :: "session \<Rightarrow> int \<Rightarrow> int \<Rightarrow> int \<Rightarrow> int \<Rightarrow> bool" where
  "quiet_cycle ss gpu_token cpu_read cur_cpu_setting cur_gpu_setting =
     (initial ss = 0 \<and> cur_cpu_setting = fst (current ss) \<and> cur_gpu_setting = snd (current ss)
      \<and> \<not> fault_cycle ss gpu_token cpu_read)"

text \<open>
  Hwmon mode on interface 3 with a CPU temperature file that holds 64000 and PWM files
  that hold 102 and 61, which read back as 40 and 24 percent.
\<close>

definition warm_env :: env where
  "warm_env =
     \<lparr>use_hwmon_interface = 1, hwmon_interface_num = 3,
      port_in = (\<lambda>port t. 0),
      hwmon_in = (\<lambda>n a t. case a of Temp1_input \<Rightarrow> Some 64000 | Pwm1 \<Rightarrow> Some 102
                               | Pwm2 \<Rightarrow> Some 61 | Fan1_input \<Rightarrow> Some 0 | Fan2_input \<Rightarrow> Some 0)\<rparr>"

text \<open>An iteration that reads the GPU token \<open>g\<close> and finds the control file \<open>f\<close>.\<close>

definition found :: "int \<Rightarrow> (ctrl_key \<times> int) list option \<Rightarrow> cycle_in" where
  "found g f = \<lparr>stdin_tokens = [g], ctrl_file = f\<rparr>"

chapter \<open>Properties\<close>

section \<open>binary64 rounding\<close>

lemma floorlog2_bounds:
  assumes "0 < n"
  shows "0 < floorlog 2 n" and "(2::rat) ^ (floorlog 2 n - 1) \<le> of_nat n"
    and "rat_of_nat n + 1 \<le> 2 ^ floorlog 2 n"
proof -
  let ?k = "floorlog 2 n"
  from floorlog_bounds [of n 2] assms
  have b: "2 ^ (?k - 1) \<le> n" "n < 2 ^ ?k" by simp_all
  show "0 < ?k" using assms by (simp add: floorlog_def)
  have "(2::rat) ^ (?k - 1) = of_nat (2 ^ (?k - 1))" by simp
  also have "\<dots> \<le> of_nat n" using b(1) by (simp only: of_nat_le_iff)
  finally show "(2::rat) ^ (?k - 1) \<le> of_nat n" .
  from b(2) have "n + 1 \<le> 2 ^ ?k" by simp
  hence "rat_of_nat (n + 1) \<le> of_nat (2 ^ ?k)" by (simp only: of_nat_le_iff)
  thus "rat_of_nat n + 1 \<le> 2 ^ ?k" by simp
qed

lemma ilog2_bounds:
  assumes "0 < x"
  shows "power_int 2 (ilog2 x) \<le> x" and "x < power_int 2 (ilog2 x + 1)"
proof -
  have "power_int 2 (ilog2 x) \<le> x \<and> x < power_int 2 (ilog2 x + 1)"
  proof (cases "1 \<le> x")
    case True
    define n where "n = nat \<lfloor>x\<rfloor>"
    define k where "k = floorlog 2 n"
    have n1: "0 < n" using True by (simp add: n_def)
    note b = floorlog2_bounds [OF n1, folded k_def]
    have e: "ilog2 x = int (k - 1)" using True b(1) by (simp add: ilog2_def n_def k_def)
    have e1: "ilog2 x + 1 = int k" using e b(1) by simp
    have nx: "rat_of_nat n \<le> x" using True by (simp add: n_def)
    have xn: "x < rat_of_nat n + 1" using True by (simp add: n_def) linarith
    have lo: "2 ^ (k - 1) \<le> x" using b(2) nx by linarith
    have hi: "x < 2 ^ k" using b(3) xn by linarith
    show ?thesis unfolding e1 unfolding e power_int_of_nat using lo hi by simp
  next
    case False
    define c where "c = \<lceil>1 / x\<rceil>"
    define n where "n = nat (c - 1)"
    define k where "k = floorlog 2 n"
    have x1: "1 < 1 / x" using False assms by simp
    hence c2: "2 \<le> c" unfolding c_def by (simp add: less_ceiling_iff [symmetric])
    have n1: "0 < n" using c2 by (simp add: n_def)
    note b = floorlog2_bounds [OF n1, folded k_def]
    have nc: "rat_of_nat n = of_int c - 1" using c2 by (simp add: n_def)
    have e: "ilog2 x = - int k" using False by (simp add: ilog2_def n_def k_def c_def)
    have e1: "ilog2 x + 1 = - int (k - 1)" using e b(1) by simp
    have cx: "1 / x \<le> of_int c" unfolding c_def by simp
    have xc: "rat_of_int c - 1 < 1 / x" unfolding c_def by linarith
    have "1 / x \<le> 2 ^ k" using b(3) nc cx by linarith
    hence lo: "1 / 2 ^ k \<le> x" using assms by (simp add: field_simps)
    have "2 ^ (k - 1) < 1 / x" using b(2) nc xc by linarith
    hence hi: "x < 1 / 2 ^ (k - 1)" using assms by (simp add: field_simps)
    show ?thesis unfolding e1 unfolding e power_int_minus_divide power_int_of_nat
      using lo hi by simp
  qed
  thus "power_int 2 (ilog2 x) \<le> x" and "x < power_int 2 (ilog2 x + 1)" by simp_all
qed

lemma ilog2_unique:
  assumes "power_int 2 e \<le> x" and "x < power_int 2 (e + 1)"
  shows "ilog2 x = e"
proof -
  have pos: "0 < x" using assms(1) by (rule less_le_trans [rotated]) simp
  note b = ilog2_bounds [OF pos]
  have "\<not> ilog2 x < e"
  proof
    assume "ilog2 x < e"
    hence "ilog2 x + 1 \<le> e" by simp
    hence "power_int (2::rat) (ilog2 x + 1) \<le> power_int 2 e"
      by (rule power_int_increasing) simp
    thus False using b(2) assms(1) by linarith
  qed
  moreover have "\<not> e < ilog2 x"
  proof
    assume "e < ilog2 x"
    hence "e + 1 \<le> ilog2 x" by simp
    hence "power_int (2::rat) (e + 1) \<le> power_int 2 (ilog2 x)"
      by (rule power_int_increasing) simp
    thus False using b(1) assms(2) by linarith
  qed
  ultimately show ?thesis by linarith
qed

lemma rne_err: "\<bar>of_int (rne s) - s\<bar> \<le> 1 / 2"
proof -
  have f: "of_int \<lfloor>s\<rfloor> \<le> s" "s < of_int \<lfloor>s\<rfloor> + 1" by linarith+
  show ?thesis
  proof (cases "s - of_int \<lfloor>s\<rfloor> < 1 / 2")
    case True
    thus ?thesis using f by (simp add: rne_def)
  next
    case False
    note nlt = this
    show ?thesis
    proof (cases "1 / 2 < s - of_int \<lfloor>s\<rfloor>")
      case True
      thus ?thesis using f nlt by (simp add: rne_def)
    next
      case False
      hence "s - of_int \<lfloor>s\<rfloor> = 1 / 2" using nlt by linarith
      thus ?thesis by (simp add: rne_def Let_def)
    qed
  qed
qed

lemma rne_of_int [simp]: "rne (of_int m) = m"
  by (simp add: rne_def)

lemma rnd_eq:
  assumes "power_int 2 e \<le> \<bar>x\<bar>" and "\<bar>x\<bar> < power_int 2 (e + 1)"
  shows "rnd x = of_int (rne (x * power_int 2 (52 - e))) * power_int 2 (e - 52)"
proof -
  have "0 < \<bar>x\<bar>" using assms(1) by (rule less_le_trans [rotated]) simp
  hence "x \<noteq> 0" by simp
  moreover have "ilog2 \<bar>x\<bar> = e" using assms by (rule ilog2_unique)
  ultimately show ?thesis by (simp add: rnd_def)
qed

lemma rnd_err: "\<bar>rnd x - x\<bar> \<le> \<bar>x\<bar> / 2 ^ 53"
proof (cases "x = 0")
  case True
  thus ?thesis by (simp add: rnd_def)
next
  case False
  hence pos: "0 < \<bar>x\<bar>" by simp
  define e where "e = ilog2 \<bar>x\<bar>"
  note b = ilog2_bounds [OF pos, folded e_def]
  define p where "p = power_int (2::rat) (e - 52)"
  have p0: "0 < p" by (simp add: p_def)
  have pinv: "power_int (2::rat) (52 - e) = 1 / p"
    using power_int_minus_divide [of "2::rat" "e - 52"] by (simp add: p_def)
  have r: "rnd x = of_int (rne (x / p)) * p"
    using rnd_eq [OF b] by (simp add: pinv p_def)
  have "\<bar>of_int (rne (x / p)) - x / p\<bar> \<le> 1 / 2" by (rule rne_err)
  hence "\<bar>of_int (rne (x / p)) - x / p\<bar> * p \<le> 1 / 2 * p"
    using p0 by (intro mult_right_mono) simp_all
  moreover have "\<bar>of_int (rne (x / p)) - x / p\<bar> * p = \<bar>rnd x - x\<bar>"
  proof -
    have "\<bar>of_int (rne (x / p)) - x / p\<bar> * p = \<bar>(of_int (rne (x / p)) - x / p) * p\<bar>"
      using p0 by (simp add: abs_mult)
    also have "(of_int (rne (x / p)) - x / p) * p = rnd x - x"
      using p0 by (simp add: r left_diff_distrib)
    finally show ?thesis .
  qed
  ultimately have 1: "\<bar>rnd x - x\<bar> \<le> p / 2" by simp
  have "power_int (2::rat) e = power_int 2 (e - 52) * power_int 2 52"
    using power_int_add [of "2::rat" "e - 52" 52] by simp
  hence "power_int (2::rat) e = p * 2 ^ 52" by (simp add: p_def)
  hence "p * 2 ^ 52 \<le> \<bar>x\<bar>" using b(1) by simp
  hence "p / 2 \<le> \<bar>x\<bar> / 2 ^ 53" by simp
  thus ?thesis using 1 by linarith
qed

lemma rnd_exact:
  assumes "power_int 2 e \<le> \<bar>x\<bar>" and "\<bar>x\<bar> < power_int 2 (e + 1)"
    and "x * power_int 2 (52 - e) = of_int m"
  shows "rnd x = x"
proof -
  have "power_int (2::rat) (52 - e) * power_int 2 (e - 52) = 1"
    using power_int_add [of "2::rat" "52 - e" "e - 52"] by simp
  hence "x = x * power_int 2 (52 - e) * power_int 2 (e - 52)" by (simp add: mult.assoc)
  moreover have "rnd x = of_int m * power_int 2 (e - 52)"
    unfolding rnd_eq [OF assms(1,2)] assms(3) by simp
  ultimately show ?thesis unfolding assms(3) by simp
qed


lemma floor_rat_numeral [simp]: "\<lfloor>numeral a / numeral b :: rat\<rfloor> = numeral a div numeral b"
  using floor_divide_of_int_eq [of "numeral a" "numeral b", where ?'a = rat] by simp

lemma abs_scale: "0 \<le> c \<Longrightarrow> \<bar>x * c - a * c\<bar> = \<bar>x - a\<bar> * (c::rat)"
  by (simp add: left_diff_distrib [symmetric] abs_mult)

lemma uro_bounds: "0 < uro" "uro * 1000000000 \<le> 1"
  by (simp_all add: uro_def)

lemma rnd_step:
  assumes "v - d \<le> y" and "y \<le> v + d" and "- B \<le> y" and "y \<le> B"
  shows "v - (d + B * uro) \<le> rnd y" and "rnd y \<le> v + (d + B * uro)"
proof -
  have "\<bar>y\<bar> \<le> B" using assms(3,4) by (simp add: abs_le_iff) 
  hence "\<bar>y\<bar> / 2 ^ 53 \<le> B / 2 ^ 53" by (simp add: divide_right_mono)
  with rnd_err [of y] have "\<bar>rnd y - y\<bar> \<le> B * uro" by (simp add: uro_def)
  hence "rnd y - y \<le> B * uro" "y - rnd y \<le> B * uro" by (simp_all add: abs_le_iff)
  thus "v - (d + B * uro) \<le> rnd y" and "rnd y \<le> v + (d + B * uro)"
    using assms(1,2) by linarith+
qed

lemma d2i_stable:
  assumes "of_int n + d \<le> v" and "v \<le> of_int n + 1 - d"
    and "v - d < y" and "y < v + d" and "0 \<le> n"
  shows "d2i y = n"
proof -
  have "of_int n \<le> y" "y < of_int n + 1" using assms by linarith+
  hence "\<lfloor>y\<rfloor> = n" by linarith
  moreover have "0 \<le> y" using \<open>of_int n \<le> y\<close> assms(5) by (simp add: order_trans [rotated])
  ultimately show ?thesis by (simp add: d2i_def)
qed

lemma calculate_fan_duty_exact:
  assumes "0 \<le> raw" and "raw \<le> 255"
  shows "calculate_fan_duty raw = (200 * raw + 255) div 510"
proof -
  define a :: rat where "a = of_int raw / 255"
  define n where "n = (200 * raw + 255) div 510"
  define v :: rat where "v = a * 100 + 1 / 2"
  note u = uro_bounds
  have a01: "0 \<le> a" "a \<le> 1" using assms by (simp_all add: a_def)
  have 1: "a - (0 + 1 * uro) \<le> rnd a" "rnd a \<le> a + (0 + 1 * uro)"
    by (rule rnd_step; use a01 in simp)+
  define x2 where "x2 = rnd (rnd a * 100)"
  have 2: "a * 100 - (100 * uro + 101 * uro) \<le> x2" "x2 \<le> a * 100 + (100 * uro + 101 * uro)"
    unfolding x2_def by (rule rnd_step; use 1 a01 u in linarith)+
  define x3 where "x3 = rnd (x2 + 1 / 2)"
  have 3: "v - (201 * uro + 102 * uro) \<le> x3" "x3 \<le> v + (201 * uro + 102 * uro)"
    unfolding x3_def v_def by (rule rnd_step; use 2 a01 u in linarith)+
  have 4: "v - 1 / 510 < x3" "x3 < v + 1 / 510" using 3 u by linarith+
  have veq: "v = of_int (200 * raw + 255) / 510" by (simp add: v_def a_def field_simps)
  have "odd (200 * raw + 255)" by simp
  moreover have "even (510::int)" by simp
  ultimately have "\<not> 510 dvd (200 * raw + 255)" using dvd_trans by blast
  hence "(200 * raw + 255) mod 510 \<noteq> 0" by (simp add: dvd_eq_mod_eq_0)
  hence m: "1 \<le> (200 * raw + 255) mod 510" "(200 * raw + 255) mod 510 \<le> 509"
    using pos_mod_bound [of 510 "200 * raw + 255"] pos_mod_sign [of 510 "200 * raw + 255"]
    by linarith+
  have dm: "200 * raw + 255 = 510 * n + (200 * raw + 255) mod 510"
    unfolding n_def by simp
  have "510 * n + 1 \<le> 200 * raw + 255" "200 * raw + 255 \<le> 510 * n + 509"
    using dm m by linarith+
  hence "rat_of_int (510 * n + 1) \<le> of_int (200 * raw + 255)"
    "rat_of_int (200 * raw + 255) \<le> of_int (510 * n + 509)"
    by (simp_all only: of_int_le_iff)
  hence lo: "of_int n + 1 / 510 \<le> v" and hi: "v \<le> of_int n + 1 - 1 / 510"
    unfolding veq by (simp_all add: field_simps)
  have n0: "0 \<le> n" unfolding n_def using assms by simp
  show ?thesis
    unfolding calculate_fan_duty_def a_def [symmetric] n_def [symmetric] x2_def [symmetric]
      x3_def [symmetric]
    by (rule d2i_stable [OF lo hi 4 n0])
qed

lemma fan_duty_raw_10: "fan_duty_raw 10 = 26"
proof -
  have 1: "rnd (of_int 10 / 100) = 3602879701896397 / 36028797018963968"
    by (subst rnd_eq [where e = "-4"]) (simp_all add: rne_def)
  have 2: "rnd (3602879701896397 / 36028797018963968 * 255) = 51 / 2"
    by (subst rnd_eq [where e = "4"]) (simp_all add: rne_def)
  have 3: "rnd (51 / 2 + 1 / 2) = 26"
    by (subst rnd_eq [where e = "4"]) (simp_all add: rne_def)
  show ?thesis unfolding fan_duty_raw_def 1 2 3 by (simp add: d2i_def)
qed

lemma fan_duty_raw_30: "fan_duty_raw 30 = 77"
proof -
  have 1: "rnd (of_int 30 / 100) = 5404319552844595 / 18014398509481984"
    by (subst rnd_eq [where e = "-2"]) (simp_all add: rne_def)
  have 2: "rnd (5404319552844595 / 18014398509481984 * 255) = 153 / 2"
    by (subst rnd_eq [where e = "6"]) (simp_all add: rne_def)
  have 3: "rnd (153 / 2 + 1 / 2) = 77"
    by (subst rnd_eq [where e = "6"]) (simp_all add: rne_def)
  show ?thesis unfolding fan_duty_raw_def 1 2 3 by (simp add: d2i_def)
qed

lemma fan_duty_raw_50: "fan_duty_raw 50 = 128"
proof -
  have 1: "rnd (of_int 50 / 100) = 1 / 2"
    by (subst rnd_eq [where e = "-1"]) (simp_all add: rne_def)
  have 2: "rnd (1 / 2 * 255) = 255 / 2"
    by (subst rnd_eq [where e = "6"]) (simp_all add: rne_def)
  have 3: "rnd (255 / 2 + 1 / 2) = 128"
    by (subst rnd_eq [where e = "7"]) (simp_all add: rne_def)
  show ?thesis unfolding fan_duty_raw_def 1 2 3 by (simp add: d2i_def)
qed

lemma fan_duty_raw_70: "fan_duty_raw 70 = 179"
proof -
  have 1: "rnd (of_int 70 / 100) = 3152519739159347 / 4503599627370496"
    by (subst rnd_eq [where e = "-1"]) (simp_all add: rne_def)
  have 2: "rnd (3152519739159347 / 4503599627370496 * 255) = 357 / 2"
    by (subst rnd_eq [where e = "7"]) (simp_all add: rne_def)
  have 3: "rnd (357 / 2 + 1 / 2) = 179"
    by (subst rnd_eq [where e = "7"]) (simp_all add: rne_def)
  show ?thesis unfolding fan_duty_raw_def 1 2 3 by (simp add: d2i_def)
qed

lemma fan_duty_raw_90: "fan_duty_raw 90 = 230"
proof -
  have 1: "rnd (of_int 90 / 100) = 8106479329266893 / 9007199254740992"
    by (subst rnd_eq [where e = "-1"]) (simp_all add: rne_def)
  have 2: "rnd (8106479329266893 / 9007199254740992 * 255) = 459 / 2"
    by (subst rnd_eq [where e = "7"]) (simp_all add: rne_def)
  have 3: "rnd (459 / 2 + 1 / 2) = 230"
    by (subst rnd_eq [where e = "7"]) (simp_all add: rne_def)
  show ?thesis unfolding fan_duty_raw_def 1 2 3 by (simp add: d2i_def)
qed


lemma fan_duty_raw_exact:
  assumes "0 \<le> p" and "p \<le> 100"
  shows "fan_duty_raw p = (255 * p + 50) div 100"
proof (cases "p mod 20 = 10")
  case True
  hence "p = 10 \<or> p = 30 \<or> p = 50 \<or> p = 70 \<or> p = 90" using assms by presburger
  thus ?thesis
    using fan_duty_raw_10 fan_duty_raw_30 fan_duty_raw_50 fan_duty_raw_70 fan_duty_raw_90
    by auto
next
  case False
  define a :: rat where "a = of_int p / 100"
  define n where "n = (51 * p + 10) div 20"
  define v :: rat where "v = a * 255 + 1 / 2"
  note u = uro_bounds
  have a01: "0 \<le> a" "a \<le> 1" using assms by (simp_all add: a_def)
  have 1: "a - (0 + 1 * uro) \<le> rnd a" "rnd a \<le> a + (0 + 1 * uro)"
    by (rule rnd_step; use a01 in simp)+
  define x2 where "x2 = rnd (rnd a * 255)"
  have 2: "a * 255 - (255 * uro + 256 * uro) \<le> x2" "x2 \<le> a * 255 + (255 * uro + 256 * uro)"
    unfolding x2_def by (rule rnd_step; use 1 a01 u in linarith)+
  define x3 where "x3 = rnd (x2 + 1 / 2)"
  have 3: "v - (511 * uro + 257 * uro) \<le> x3" "x3 \<le> v + (511 * uro + 257 * uro)"
    unfolding x3_def v_def by (rule rnd_step; use 2 a01 u in linarith)+
  have 4: "v - 1 / 20 < x3" "x3 < v + 1 / 20" using 3 u by linarith+
  have veq: "v = of_int (51 * p + 10) / 20" by (simp add: v_def a_def field_simps)
  have "\<not> 20 dvd (51 * p + 10)"
  proof
    assume "20 dvd (51 * p + 10)"
    hence "20 dvd 11 * (51 * p + 10)" by (rule dvd_mult)
    moreover have "11 * (51 * p + 10) = 20 * (28 * p + 5) + (p + 10)" by simp
    ultimately have "20 dvd 20 * (28 * p + 5) + (p + 10)" by simp
    hence "20 dvd p + 10" by (simp only: dvd_add_right_iff dvd_triv_left)
    hence "p mod 20 = 10" by presburger
    thus False using False by simp
  qed
  hence "(51 * p + 10) mod 20 \<noteq> 0" by (simp add: dvd_eq_mod_eq_0)
  hence m: "1 \<le> (51 * p + 10) mod 20" "(51 * p + 10) mod 20 \<le> 19"
    using pos_mod_bound [of 20 "51 * p + 10"] pos_mod_sign [of 20 "51 * p + 10"]
    by linarith+
  have dm: "51 * p + 10 = 20 * n + (51 * p + 10) mod 20"
    unfolding n_def by simp
  have "20 * n + 1 \<le> 51 * p + 10" "51 * p + 10 \<le> 20 * n + 19"
    using dm m by linarith+
  hence "rat_of_int (20 * n + 1) \<le> of_int (51 * p + 10)"
    "rat_of_int (51 * p + 10) \<le> of_int (20 * n + 19)"
    by (simp_all only: of_int_le_iff)
  hence lo: "of_int n + 1 / 20 \<le> v" and hi: "v \<le> of_int n + 1 - 1 / 20"
    unfolding veq by (simp_all add: field_simps)
  have n0: "0 \<le> n" unfolding n_def using assms by simp
  have "(255 * p + 50) div 100 = (5 * (51 * p + 10)) div (5 * 20)" by simp
  also have "\<dots> = n" unfolding n_def by (rule div_mult_mult1) simp
  finally have neq: "(255 * p + 50) div 100 = n" .
  show ?thesis
    unfolding fan_duty_raw_def a_def [symmetric] neq x2_def [symmetric] x3_def [symmetric]
    by (rule d2i_stable [OF lo hi 4 n0])
qed

lemma duty_round_trip_exact:
  assumes "0 \<le> p" and "p \<le> 100"
  shows "calculate_fan_duty (fan_duty_raw p) = p"
proof -
  define r where "r = (255 * p + 50) div 100"
  have "255 * p + 50 = 100 * r + (255 * p + 50) mod 100" unfolding r_def by simp
  moreover have "0 \<le> (255 * p + 50) mod 100" "(255 * p + 50) mod 100 < 100" by simp_all
  ultimately have b: "100 * r \<le> 255 * p + 50" "255 * p + 50 < 100 * r + 100" by linarith+
  have r0: "0 \<le> r" "r \<le> 255" using b assms by linarith+
  have "(200 * r + 255) div 510 = p"
    by (rule int_div_pos_eq [where r = "200 * r + 255 - 510 * p"]) (use b in linarith)+
  thus ?thesis
    unfolding fan_duty_raw_exact [OF assms] r_def [symmetric]
    by (simp add: calculate_fan_duty_exact [OF r0])
qed

subsection \<open>Integers are rounded to themselves\<close>

lemma rnd_of_int:
  assumes "\<bar>n\<bar> < 2 ^ 53"
  shows "rnd (of_int n) = of_int n"
proof (cases "n = 0")
  case True
  thus ?thesis by (simp add: rnd_def)
next
  case False
  define x :: rat where "x = of_int n"
  define e where "e = ilog2 \<bar>x\<bar>"
  have ax: "\<bar>x\<bar> = of_int \<bar>n\<bar>" by (simp add: x_def)
  have lo: "1 \<le> \<bar>x\<bar>" unfolding ax using False by (simp only: of_int_1_le_iff)
  have hi: "\<bar>x\<bar> < 2 ^ 53"
  proof -
    have "rat_of_int \<bar>n\<bar> < of_int (2 ^ 53)" using assms by (simp only: of_int_less_iff)
    thus ?thesis unfolding ax by simp
  qed
  have pos: "0 < \<bar>x\<bar>" using lo by simp
  note b = ilog2_bounds [OF pos, folded e_def]
  have e0: "0 \<le> e"
  proof (rule ccontr)
    assume "\<not> 0 \<le> e"
    hence "e + 1 \<le> 0" by simp
    hence "power_int (2::rat) (e + 1) \<le> power_int 2 0" by (rule power_int_increasing) simp
    thus False using b(2) lo by simp
  qed
  have e52: "e \<le> 52"
  proof (rule ccontr)
    assume "\<not> e \<le> 52"
    hence "53 \<le> e" by simp
    hence "power_int (2::rat) 53 \<le> power_int 2 e" by (rule power_int_increasing) simp
    thus False using b(1) hi by simp
  qed
  have "power_int (2::rat) (52 - e) = 2 ^ nat (52 - e)"
    using e52 by (simp add: power_int_def)
  hence "x * power_int 2 (52 - e) = of_int (n * 2 ^ nat (52 - e))" by (simp add: x_def)
  from rnd_exact [OF b this] show ?thesis by (simp add: x_def)
qed

lemma rnd_numeral [simp]: "numeral k < (2::int) ^ 53 \<Longrightarrow> rnd (numeral k) = numeral k"
  using rnd_of_int [of "numeral k"] by simp

lemma rnd_neg_numeral [simp]:
  "numeral k < (2::int) ^ 53 \<Longrightarrow> rnd (- numeral k) = - numeral k"
  using rnd_of_int [of "- numeral k"] by simp

lemma rnd_0 [simp]: "rnd 0 = 0"
  by (simp add: rnd_def)

lemma rnd_1 [simp]: "rnd 1 = 1"
  using rnd_of_int [of 1] by simp

section \<open>Duty conversion\<close>

text \<open>
  C8. For every integer percentage \<open>p\<close> from 0 to 100 the value written for \<open>p\<close> is
  \<open>round (p / 100 * 255)\<close>, reading it back gives \<open>round (raw / 255 * 100)\<close>, and the result
  differs from \<open>p\<close> by at most 1 (the binary64 computation of the source gives \<open>p\<close> itself).
\<close>

theorem duty_round_trip:
  assumes "0 \<le> p" and "p \<le> 100"
  shows "fan_duty_raw p = round (of_int p / 100 * 255 :: rat)
       \<and> calculate_fan_duty (fan_duty_raw p) = round (of_int (fan_duty_raw p) / 255 * 100 :: rat)
       \<and> \<bar>calculate_fan_duty (fan_duty_raw p) - p\<bar> \<le> 1"
proof -
  define r where "r = (255 * p + 50) div 100"
  have enc: "fan_duty_raw p = r" unfolding r_def by (rule fan_duty_raw_exact [OF assms])
  have "255 * p + 50 = 100 * r + (255 * p + 50) mod 100" unfolding r_def by simp
  moreover have "0 \<le> (255 * p + 50) mod 100" "(255 * p + 50) mod 100 < 100" by simp_all
  ultimately have r0: "0 \<le> r" "r \<le> 255" using assms by linarith+
  have "of_int p / 100 * 255 + 1 / 2 = (of_int (255 * p + 50) / of_int 100 :: rat)" by simp
  hence 1: "round (of_int p / 100 * 255 :: rat) = r"
    unfolding round_def r_def by (simp only: floor_divide_of_int_eq)
  have "of_int r / 255 * 100 + 1 / 2 = (of_int (200 * r + 255) / of_int 510 :: rat)" by simp
  hence 2: "round (of_int r / 255 * 100 :: rat) = (200 * r + 255) div 510"
    unfolding round_def by (simp only: floor_divide_of_int_eq)
  have 3: "calculate_fan_duty (fan_duty_raw p) = p" by (rule duty_round_trip_exact [OF assms])
  show ?thesis
    unfolding enc 1 2 using 3 calculate_fan_duty_exact [OF r0] by (simp add: enc)
qed

theorem duty_round_trip_witness:
  "(0::int) \<le> 70 \<and> (70::int) \<le> 100
   \<and> fan_duty_raw 70 = round (of_int 70 / 100 * 255 :: rat)
   \<and> \<bar>calculate_fan_duty (fan_duty_raw 70) - 70\<bar> \<le> 1"
proof -
  have h: "(0::int) \<le> 70" "(70::int) \<le> 100" by simp_all
  from duty_round_trip [OF h] h show ?thesis by blast
qed

section \<open>The port handshake\<close>

declare ec_io_wait_loop.simps [simp del]

text \<open>
  The loop leaves \<open>i\<close> at 101 at most, so the test \<^verbatim>\<open>i >= 1000\<close> that guards the error return
  never holds: whatever the controller does, \<^verbatim>\<open>ec_io_wait\<close> returns \<^verbatim>\<open>EXIT_SUCCESS\<close>.
\<close>

lemma wait_loop_bound:
  "i \<le> 100 \<Longrightarrow> fst (snd (ec_io_wait_loop ev port flag val data i st)) \<le> 101"
proof (induction ev port flag val data i st rule: ec_io_wait_loop.induct)
  case (1 ev port flag val data i st)
  show ?case
  proof (cases "uint (drop_bit (unat flag) data AND 1) \<noteq> val \<and> i < 100")
    case True
    obtain d' st' where inb: "inb ev port st = (d', st')" by (cases "inb ev port st")
    from True inb "1.IH" [of "(d', st')" d' st']
    have "fst (snd (ec_io_wait_loop ev port flag val d' (i + 1) st')) \<le> 101" by simp
    thus ?thesis using True inb by (subst ec_io_wait_loop.simps) simp
  next
    case False
    thus ?thesis using "1.prems" by (subst ec_io_wait_loop.simps) auto
  qed
qed

lemma ec_io_wait_never_fails: "fst (ec_io_wait ev port flag val st) = EXIT_SUCCESS"
proof -
  obtain d st1 where a: "inb ev port st = (d, st1)" by (cases "inb ev port st")
  obtain d' i st2 where b: "ec_io_wait_loop ev port flag val d 0 st1 = (d', i, st2)"
    by (cases "ec_io_wait_loop ev port flag val d 0 st1")
  from wait_loop_bound [of 0 ev port flag val d st1] b have "i \<le> 101" by simp
  thus ?thesis by (simp add: ec_io_wait_def a b)
qed

lemma wait_loop_stuck:
  "\<forall>t. uint (drop_bit (unat flag) (port_in ev port t) AND 1) \<noteq> val \<Longrightarrow>
   uint (drop_bit (unat flag) data AND 1) \<noteq> val \<Longrightarrow> i \<le> 100 \<Longrightarrow>
   snd (ec_io_wait_loop ev port flag val data i st)
     = (101, st\<lparr>ticks := ticks st + nat (100 - i)\<rparr>)"
proof (induction ev port flag val data i st rule: ec_io_wait_loop.induct)
  case (1 ev port flag val data i st)
  show ?case
  proof (cases "i < 100")
    case True
    have inb: "inb ev port st = (port_in ev port (ticks st), st\<lparr>ticks := Suc (ticks st)\<rparr>)"
      by (simp add: inb_def)
    have "nat (100 - i) = Suc (nat (100 - (i + 1)))" using True by simp
    thus ?thesis
      using True "1.prems"
        "1.IH" [of "(port_in ev port (ticks st), st\<lparr>ticks := Suc (ticks st)\<rparr>)"
          "port_in ev port (ticks st)" "st\<lparr>ticks := Suc (ticks st)\<rparr>"]
      by (subst ec_io_wait_loop.simps) (simp add: inb)
  next
    case False
    hence "i = 100" using "1.prems" by simp
    thus ?thesis using "1.prems" by (subst ec_io_wait_loop.simps) simp
  qed
qed

lemma ec_io_wait_stuck:
  assumes "\<forall>t. uint (drop_bit (unat flag) (port_in ev port t) AND 1) \<noteq> val"
  shows "ec_io_wait ev port flag val st = (EXIT_SUCCESS, st\<lparr>ticks := ticks st + 101\<rparr>)"
proof -
  let ?d = "port_in ev port (ticks st)"
  let ?st1 = "st\<lparr>ticks := Suc (ticks st)\<rparr>"
  obtain d' i st2 where b: "ec_io_wait_loop ev port flag val ?d 0 ?st1 = (d', i, st2)"
    by (cases "ec_io_wait_loop ev port flag val ?d 0 ?st1")
  from wait_loop_stuck [of flag ev port val ?d 0 ?st1] assms b
  have "i = 101" "st2 = st\<lparr>ticks := ticks st + 101\<rparr>" by simp_all
  thus ?thesis by (simp add: ec_io_wait_def inb_def b)
qed

text \<open>
  C1. The claim: a handshake wait that exceeds its retry bound makes \<^verbatim>\<open>ec_io_wait\<close> return a
  failure code, and the enclosing operation is aborted. On the controller \<open>stuck_env\<close>, whose
  status bits never change, the wait for a clear input buffer gives up after 101 port
  reads and returns \<^verbatim>\<open>EXIT_SUCCESS\<close>; \<^verbatim>\<open>ec_io_read\<close> goes through its three timed-out waits,
  still sends the read command and the register offset, and returns the byte \<open>0x2A\<close> found
  on the data port as the CPU temperature.
\<close>

theorem ec_io_wait_timeout_unreported:
  "ec_io_wait stuck_env EC_SC IBF 0 sys0 = (EXIT_SUCCESS, sys0\<lparr>ticks := 101\<rparr>)
   \<and> ec_io_read stuck_env EC_REG_CPU_TEMP sys0
       = (0x2A, \<lparr>ticks = 304, outs = [(0x80, EC_SC), (0x07, EC_DATA)], hwmon_outs = []\<rparr>)"
proof -
  have i: "ec_io_wait stuck_env EC_SC IBF 0 st = (EXIT_SUCCESS, st\<lparr>ticks := ticks st + 101\<rparr>)"
    for st by (rule ec_io_wait_stuck) (simp add: stuck_env_def IBF_def)
  have o: "ec_io_wait stuck_env EC_SC OBF 1 st = (EXIT_SUCCESS, st\<lparr>ticks := ticks st + 101\<rparr>)"
    for st by (rule ec_io_wait_stuck) (simp add: stuck_env_def OBF_def)
  have d: "port_in stuck_env EC_DATA t = 0x2A" for t
    by (simp add: stuck_env_def EC_DATA_def EC_SC_def)
  show ?thesis
    by (simp add: ec_io_read_def i o d inb_def outb_def sys0_def EC_SC_READ_CMD_def
        EC_REG_CPU_TEMP_def)
qed

text \<open>The port writes of a vendor command, whatever the waits do.\<close>

lemma wait_loop_logs:
  "outs (snd (snd (ec_io_wait_loop ev port flag val data i st))) = outs st
   \<and> hwmon_outs (snd (snd (ec_io_wait_loop ev port flag val data i st))) = hwmon_outs st"
proof (induction ev port flag val data i st rule: ec_io_wait_loop.induct)
  case (1 ev port flag val data i st)
  show ?case
  proof (cases "uint (drop_bit (unat flag) data AND 1) \<noteq> val \<and> i < 100")
    case True
    have inb: "inb ev port st = (port_in ev port (ticks st), st\<lparr>ticks := Suc (ticks st)\<rparr>)"
      by (simp add: inb_def)
    from True "1.IH" [of "(port_in ev port (ticks st), st\<lparr>ticks := Suc (ticks st)\<rparr>)"
          "port_in ev port (ticks st)" "st\<lparr>ticks := Suc (ticks st)\<rparr>"]
    show ?thesis by (subst (1 2) ec_io_wait_loop.simps) (simp add: inb)
  next
    case False
    thus ?thesis by (subst (1 2) ec_io_wait_loop.simps) auto
  qed
qed

lemma ec_io_wait_logs:
  "outs (snd (ec_io_wait ev port flag val st)) = outs st"
  "hwmon_outs (snd (ec_io_wait ev port flag val st)) = hwmon_outs st"
  using wait_loop_logs [of ev port flag val "port_in ev port (ticks st)" 0
      "st\<lparr>ticks := Suc (ticks st)\<rparr>"]
  by (auto simp: ec_io_wait_def inb_def split: prod.splits)

lemma outs_outb: "outs (outb v port st) = outs st @ [(v, port)]"
  by (simp add: outb_def)

lemma ec_io_do_outs:
  "outs (snd (ec_io_do ev cmd port v st))
     = outs st @ [(ucast cmd, EC_SC), (ucast port, EC_DATA), (v, EC_DATA)]"
proof -
  obtain r1 st1 where 1: "ec_io_wait ev EC_SC IBF 0 st = (r1, st1)"
    by (cases "ec_io_wait ev EC_SC IBF 0 st")
  obtain r2 st3 where 2: "ec_io_wait ev EC_SC IBF 0 (outb (ucast cmd) EC_SC st1) = (r2, st3)"
    by (cases "ec_io_wait ev EC_SC IBF 0 (outb (ucast cmd) EC_SC st1)")
  obtain r3 st5 where 3: "ec_io_wait ev EC_SC IBF 0 (outb (ucast port) EC_DATA st3) = (r3, st5)"
    by (cases "ec_io_wait ev EC_SC IBF 0 (outb (ucast port) EC_DATA st3)")
  from ec_io_wait_logs(1) [of ev EC_SC IBF 0 st] 1 have o1: "outs st1 = outs st" by simp
  from ec_io_wait_logs(1) [of ev EC_SC IBF 0 "outb (ucast cmd) EC_SC st1"] 2
  have o3: "outs st3 = outs st1 @ [(ucast cmd, EC_SC)]" by (simp add: outs_outb)
  from ec_io_wait_logs(1) [of ev EC_SC IBF 0 "outb (ucast port) EC_DATA st3"] 3
  have o5: "outs st5 = outs st3 @ [(ucast port, EC_DATA)]" by (simp add: outs_outb)
  show ?thesis
    by (simp add: ec_io_do_def 1 2 3 ec_io_wait_logs(1) outs_outb o1 o3 o5)
qed

section \<open>Hwmon mode with unreadable attribute files\<close>

lemma calculate_fan_duty_252: "calculate_fan_duty 252 = 99"
  by (simp add: calculate_fan_duty_exact)

text \<open>
  C10, as the claim states it, fails for the two write operations: a duty percentage
  outside 0..100 is rejected with \<^verbatim>\<open>EXIT_FAILURE\<close> before any file is opened, so with an
  unopenable PWM file the write of \<open>-5\<close> returns 1, not 99.
\<close>

theorem hwmon_write_out_of_range:
  "use_hwmon_interface hwmon_env \<noteq> 0 \<and> cannot_open hwmon_env Pwm1 sys0
   \<and> fst (ec_write_cpu_fan_duty hwmon_env (- 5) sys0) = EXIT_FAILURE
   \<and> fst (ec_write_cpu_fan_duty hwmon_env (- 5) sys0) \<noteq> 99"
  by (simp add: hwmon_env_def cannot_open_def ec_write_cpu_fan_duty_def EXIT_FAILURE_def)

text \<open>
  C10, amended. In hwmon mode, when the attribute file of an operation cannot be opened,
  each of the five queries (CPU temperature, CPU and GPU fan duty, CPU and GPU fan RPM)
  returns 99 and nothing else happens; so does each duty write for a percentage within
  0..100, while a percentage outside that range returns \<^verbatim>\<open>EXIT_FAILURE\<close> without touching
  the file. 99 is neither \<^verbatim>\<open>EXIT_SUCCESS\<close> nor \<^verbatim>\<open>EXIT_FAILURE\<close>, and it is also what the queries
  return for the genuine file contents 99000 (milli-degrees), 252 (PWM) and 99 (RPM).
\<close>

theorem hwmon_unopenable_gives_99:
  assumes "use_hwmon_interface ev \<noteq> 0"
  shows "(cannot_open ev Temp1_input st \<longrightarrow> ec_query_cpu_temp ev st = (99, tick st))
       \<and> (cannot_open ev Pwm1 st \<longrightarrow> ec_query_cpu_fan_duty ev st = (99, tick st))
       \<and> (cannot_open ev Pwm2 st \<longrightarrow> ec_query_gpu_fan_duty ev st = (99, tick st))
       \<and> (cannot_open ev Fan1_input st \<longrightarrow> ec_query_cpu_fan_rpms ev st = (99, tick st))
       \<and> (cannot_open ev Fan2_input st \<longrightarrow> ec_query_gpu_fan_rpms ev st = (99, tick st))
       \<and> (cannot_open ev Pwm1 st \<and> 0 \<le> d \<and> d \<le> 100 \<longrightarrow>
            ec_write_cpu_fan_duty ev d st = (99, tick st))
       \<and> (cannot_open ev Pwm2 st \<and> 0 \<le> d \<and> d \<le> 100 \<longrightarrow>
            ec_write_gpu_fan_duty ev d st = (99, tick st))
       \<and> ((d < 0 \<or> 100 < d) \<longrightarrow>
            ec_write_cpu_fan_duty ev d st = (EXIT_FAILURE, st) \<and>
            ec_write_gpu_fan_duty ev d st = (EXIT_FAILURE, st))
       \<and> 99 \<noteq> EXIT_SUCCESS \<and> 99 \<noteq> EXIT_FAILURE
       \<and> (holds ev Temp1_input st 99000 \<longrightarrow> ec_query_cpu_temp ev st = (99, tick st))
       \<and> (holds ev Pwm1 st 252 \<longrightarrow> ec_query_cpu_fan_duty ev st = (99, tick st))
       \<and> (holds ev Fan1_input st 99 \<longrightarrow> ec_query_cpu_fan_rpms ev st = (99, tick st))"
  using assms
  by (simp add: cannot_open_def holds_def tick_def hwmon_fopen_def ec_query_cpu_temp_def
      ec_query_cpu_fan_duty_def ec_query_gpu_fan_duty_def ec_query_cpu_fan_rpms_def
      ec_query_gpu_fan_rpms_def ec_write_cpu_fan_duty_def ec_write_gpu_fan_duty_def
      EXIT_SUCCESS_def EXIT_FAILURE_def c_div_def calculate_fan_duty_252)

text \<open>A witness: interface 3 with no openable file, a write of 70 percent.\<close>

theorem hwmon_unopenable_gives_99_witness:
  "use_hwmon_interface hwmon_env \<noteq> 0 \<and> cannot_open hwmon_env Temp1_input sys0
   \<and> cannot_open hwmon_env Pwm1 sys0
   \<and> ec_query_cpu_temp hwmon_env sys0 = (99, tick sys0)
   \<and> ec_write_cpu_fan_duty hwmon_env 70 sys0 = (99, tick sys0)"
proof -
  have h: "use_hwmon_interface hwmon_env \<noteq> 0" by (simp add: hwmon_env_def)
  have c: "cannot_open hwmon_env Temp1_input sys0" "cannot_open hwmon_env Pwm1 sys0"
    by (simp_all add: cannot_open_def hwmon_env_def)
  from hwmon_unopenable_gives_99 [OF h, of sys0 70] h c show ?thesis by simp
qed

section \<open>The stepped ladder\<close>

text \<open>
  C3, as the claim states it, makes the result a function of the temperature alone. At
  temperature 58 and duty 70 the specification's rising table gives 70 (row \<open>\<ge> 55\<close>), while
  the source returns 100: its row \<open>\<ge> 55\<close> also requires a duty below 70, no other row
  matches, and the final \<^verbatim>\<open>return 100\<close> is reached.
\<close>

theorem ladder_spec_counterexample:
  "ec_auto_duty_adjust (telemetry 58 40 70) = 100 \<and> ladder_spec (max 58 40) = 70"
  by (simp add: ec_auto_duty_adjust_def telemetry_def main_init_share_def ladder_spec_def)

text \<open>
  C3, amended. For every shared block the ladder returns the duty of the first rising row
  \<open>(t, d)\<close> with \<open>temp \<ge> t\<close> and \<open>duty < d\<close>, else of the first falling row with \<open>temp \<le> t\<close> and
  \<open>duty > d\<close>, else 100, where \<open>temp\<close> is the larger of the CPU and GPU temperatures and
  \<open>duty\<close> the fan duty of the block; it depends on nothing else.
\<close>

theorem ladder_guarded_correct:
  "ec_auto_duty_adjust sh = ladder_guarded (max (cpu_temp sh) (gpu_temp sh)) (fan_duty sh)"
  by (simp add: ec_auto_duty_adjust_def ladder_guarded_def rising_rows_def falling_rows_def
      Let_def)

text \<open>
  C4, as the claim states it, fails in two of its three parts: at duty 50 a temperature
  of 58 does change the duty, and at duty 80 a temperature of 50 does not give 60.
\<close>

theorem ladder_scenario_counterexample:
  "\<not> (ec_auto_duty_adjust (telemetry 58 58 50) = 50
      \<and> ec_auto_duty_adjust (telemetry 60 60 50) = 80
      \<and> ec_auto_duty_adjust (telemetry 50 50 80) = 60)"
  by (simp add: ec_auto_duty_adjust_def telemetry_def main_init_share_def)

text \<open>
  C4, amended. With current duty 50 a temperature of 58 raises the duty to 70 (the row
  \<open>\<ge> 55\<close> fires for every duty below 70) and a temperature of 60 raises it to 80; with
  current duty 80 a temperature of 50 lowers the duty to 70 (row \<open>\<le> 55\<close>), and a temperature
  of 45 lowers it to 60 (row \<open>\<le> 45\<close>).
\<close>

theorem ladder_scenario:
  "ec_auto_duty_adjust (telemetry 58 58 50) = 70
   \<and> ec_auto_duty_adjust (telemetry 60 60 50) = 80
   \<and> ec_auto_duty_adjust (telemetry 50 50 80) = 70
   \<and> ec_auto_duty_adjust (telemetry 45 45 80) = 60"
  by (simp add: ec_auto_duty_adjust_def telemetry_def main_init_share_def)

section \<open>Ownership of the shared control block\<close>

text \<open>
  The code blocks of the two processes are sequences of steps: the menu command makes
  three assignments, a successful register read four, the other blocks one or none.
\<close>

lemma interleaving_append:
  "interleaving sh tr sh' \<Longrightarrow> interleaving sh' tr' sh'' \<Longrightarrow> interleaving sh (tr @ tr') sh''"
  by (induction rule: interleaving.induct) (auto intro: interleaving.intros)

lemma ui_command_set_fan_steps:
  "interleaving sh
     [(Presentation, sh\<lparr>auto_duty := (if v = 0 then 1 else 0)\<rparr>),
      (Presentation, sh\<lparr>auto_duty := (if v = 0 then 1 else 0), auto_duty_val := 0\<rparr>),
      (Presentation, ui_command_set_fan v sh)]
     (ui_command_set_fan v sh)"
proof -
  let ?s1 = "sh\<lparr>auto_duty := (if v = 0 then 1 else 0)\<rparr>"
  let ?s2 = "?s1\<lparr>auto_duty_val := 0\<rparr>"
  let ?s3 = "?s2\<lparr>manual_next_fan_duty := v\<rparr>"
  have e: "ui_command_set_fan v sh = ?s3" by (simp add: ui_command_set_fan_def)
  have 1: "step Presentation sh ?s1" by (rule step.p_auto_duty)
  have 2: "step Presentation ?s1 ?s2" by (rule step.p_auto_val)
  have 3: "step Presentation ?s2 ?s3" by (rule step.p_manual_next)
  show ?thesis unfolding e by (intro interleaving.intros 1 2 3)
qed

lemma worker_read_ec_steps:
  "\<exists>tr. interleaving sh tr (worker_read_ec buf sh) \<and> (\<forall>x \<in> set tr. fst x = Worker)"
proof (cases "length buf = EC_REG_SIZE")
  case False
  hence "worker_read_ec buf sh = sh" by (simp add: worker_read_ec_def)
  thus ?thesis using interleaving.il_nil [of sh] by force
next
  case True
  let ?s1 = "sh\<lparr>cpu_temp := uint (buf ! unat EC_REG_CPU_TEMP)\<rparr>"
  let ?s2 = "?s1\<lparr>gpu_temp := uint (buf ! unat EC_REG_GPU_TEMP)\<rparr>"
  let ?s3 = "?s2\<lparr>fan_duty := calculate_fan_duty (uint (buf ! unat EC_REG_CPU_FAN_DUTY))\<rparr>"
  let ?s4 = "?s3\<lparr>fan_rpms := calculate_fan_rpms (uint (buf ! unat EC_REG_CPU_FAN_RPMS_HI))
                            (uint (buf ! unat EC_REG_CPU_FAN_RPMS_LO))\<rparr>"
  have e: "worker_read_ec buf sh = ?s4" using True by (simp add: worker_read_ec_def)
  have "interleaving sh [(Worker, ?s1), (Worker, ?s2), (Worker, ?s3), (Worker, ?s4)] ?s4"
    by (intro interleaving.intros step.w_cpu_temp step.w_gpu_temp step.w_fan_duty
        step.w_fan_rpms)
  thus ?thesis unfolding e by force
qed

lemma worker_write_ec_steps:
  "\<exists>tr. interleaving sh tr (fst (worker_write_ec ev (sh, st))) \<and> (\<forall>x \<in> set tr. fst x = Worker)"
proof (cases "manual_next_fan_duty sh \<noteq> 0 \<and> manual_next_fan_duty sh \<noteq> manual_prev_fan_duty sh")
  case False
  hence "fst (worker_write_ec ev (sh, st)) = sh" by (auto simp: worker_write_ec_def Let_def)
  thus ?thesis using interleaving.il_nil [of sh] by force
next
  case True
  let ?s = "sh\<lparr>manual_prev_fan_duty := manual_next_fan_duty sh\<rparr>"
  have e: "fst (worker_write_ec ev (sh, st)) = ?s"
    using True by (simp add: worker_write_ec_def Let_def)
  have "interleaving sh [(Worker, ?s)] ?s"
    using True by (intro interleaving.intros step.w_prev) simp
  thus ?thesis unfolding e by force
qed

lemma worker_auto_ec_steps:
  "\<exists>tr. interleaving sh tr (fst (worker_auto_ec ev (sh, st))) \<and> (\<forall>x \<in> set tr. fst x = Worker)"
proof (cases "auto_duty sh = 1 \<and> ec_auto_duty_adjust sh \<noteq> 0
    \<and> ec_auto_duty_adjust sh \<noteq> auto_duty_val sh")
  case False
  hence "fst (worker_auto_ec ev (sh, st)) = sh" by (auto simp: worker_auto_ec_def Let_def)
  thus ?thesis using interleaving.il_nil [of sh] by force
next
  case True
  let ?s = "sh\<lparr>auto_duty_val := ec_auto_duty_adjust sh\<rparr>"
  have e: "fst (worker_auto_ec ev (sh, st)) = ?s"
    using True by (simp add: worker_auto_ec_def Let_def)
  have "interleaving sh [(Worker, ?s)] ?s"
    using True by (intro interleaving.intros step.w_auto_val) simp
  thus ?thesis unfolding e by force
qed

lemma main_ec_worker_pass_steps:
  assumes "main_ec_worker_pass ev alive io_fd (sh, st) = Some (sh', st')"
  shows "\<exists>tr. interleaving sh tr sh' \<and> (\<forall>x \<in> set tr. fst x = Worker)"
proof -
  from assms obtain buf where io: "io_fd = Some buf"
    by (cases io_fd) (auto simp: main_ec_worker_pass_def split: if_splits)
  obtain sh1 st1 where w: "worker_write_ec ev (sh, st) = (sh1, st1)"
    by (cases "worker_write_ec ev (sh, st)")
  define sh2 where "sh2 = worker_read_ec buf sh1"
  from assms have e: "sh' = fst (worker_auto_ec ev (sh2, st1))"
    by (auto simp: main_ec_worker_pass_def io w sh2_def split: if_splits)
  from worker_write_ec_steps [of sh ev st] w
  obtain t1 where 1: "interleaving sh t1 sh1" "\<forall>x \<in> set t1. fst x = Worker" by auto
  from worker_read_ec_steps [of sh1 buf]
  obtain t2 where 2: "interleaving sh1 t2 sh2" "\<forall>x \<in> set t2. fst x = Worker"
    unfolding sh2_def by auto
  from worker_auto_ec_steps [of sh2 ev st1]
  obtain t3 where 3: "interleaving sh2 t3 sh'" "\<forall>x \<in> set t3. fst x = Worker"
    unfolding e by auto
  from 1(1) 2(1) 3(1) have "interleaving sh (t1 @ t2 @ t3) sh'"
    by (blast intro: interleaving_append)
  moreover have "\<forall>x \<in> set (t1 @ t2 @ t3). fst x = Worker" using 1(2) 2(2) 3(2) by auto
  ultimately show ?thesis by blast
qed

lemma exit_steps:
  "step Worker sh (ec_on_sigterm sh)" "step Presentation sh (main_on_sigterm sh)"
  "step Presentation sh (main_quit sh)"
  by (simp_all add: ec_on_sigterm_def main_on_sigterm_def main_quit_def step.w_exit step.p_exit)

text \<open>
  C9, as the claim states it, fails for the applied automatic duty: every menu command of
  the presentation side writes \<^verbatim>\<open>auto_duty_val = 0\<close>. Here the worker had applied 80 and the
  command "Set FAN to 60%", three steps of the presentation side, resets the field.
\<close>

theorem presentation_writes_auto_duty_val:
  "interleaving (main_init_share\<lparr>auto_duty_val := 80\<rparr>)
     [(Presentation, main_init_share\<lparr>auto_duty_val := 80, auto_duty := 0\<rparr>),
      (Presentation, main_init_share\<lparr>auto_duty_val := 80, auto_duty := 0, auto_duty_val := 0\<rparr>),
      (Presentation, ui_command_set_fan 60 (main_init_share\<lparr>auto_duty_val := 80\<rparr>))]
     (ui_command_set_fan 60 (main_init_share\<lparr>auto_duty_val := 80\<rparr>))
   \<and> auto_duty_val (main_init_share\<lparr>auto_duty_val := 80\<rparr>) = 80
   \<and> auto_duty_val (ui_command_set_fan 60 (main_init_share\<lparr>auto_duty_val := 80\<rparr>)) = 0"
  using ui_command_set_fan_steps [of "main_init_share\<lparr>auto_duty_val := 80\<rparr>" 60]
  by (simp add: ui_command_set_fan_def)

lemma step_obeys: "step a sh sh' \<Longrightarrow> obeys a sh sh'"
  by (induction rule: step.induct) (simp_all add: obeys_def)

text \<open>
  C9, amended. Over every interleaving of steps of the two processes: a step of the
  presentation side leaves the telemetry fields (\<^verbatim>\<open>cpu_temp\<close>, \<^verbatim>\<open>gpu_temp\<close>, \<^verbatim>\<open>fan_duty\<close>,
  \<^verbatim>\<open>fan_rpms\<close>) unchanged and changes \<^verbatim>\<open>auto_duty_val\<close> only by resetting it to 0; a step of the
  worker leaves the mode flag and the manual duty request unchanged; and an exit flag that
  is set stays set.
\<close>

theorem field_ownership:
  "interleaving sh tr sh' \<Longrightarrow> owned sh tr \<and> (exit sh \<noteq> 0 \<longrightarrow> exit sh' \<noteq> 0)"
proof (induction rule: interleaving.induct)
  case (il_nil sh)
  show ?case by simp
next
  case (il_step a sh sh' tr sh'')
  from il_step.hyps(1) have r: "obeys a sh sh'" by (rule step_obeys)
  hence "exit sh \<noteq> 0 \<longrightarrow> exit sh' \<noteq> 0" by (simp add: obeys_def)
  with r il_step.IH show ?case by simp
qed

text \<open>
  A witness: the worker's termination signal sets the exit flag, then the presentation
  side resets the applied automatic duty with the flag already set.
\<close>

theorem field_ownership_witness:
  "interleaving main_init_share
     [(Worker, main_init_share\<lparr>exit := 1\<rparr>),
      (Presentation, main_init_share\<lparr>exit := 1, auto_duty_val := 0\<rparr>)]
     (main_init_share\<lparr>exit := 1, auto_duty_val := 0\<rparr>)
   \<and> owned main_init_share
     [(Worker, main_init_share\<lparr>exit := 1\<rparr>),
      (Presentation, main_init_share\<lparr>exit := 1, auto_duty_val := 0\<rparr>)]
   \<and> exit (main_init_share\<lparr>exit := 1\<rparr>) \<noteq> 0
   \<and> exit (main_init_share\<lparr>exit := 1, auto_duty_val := 0\<rparr>) \<noteq> 0"
proof -
  have i: "interleaving main_init_share
     [(Worker, main_init_share\<lparr>exit := 1\<rparr>),
      (Presentation, main_init_share\<lparr>exit := 1, auto_duty_val := 0\<rparr>)]
     (main_init_share\<lparr>exit := 1, auto_duty_val := 0\<rparr>)"
    by (intro interleaving.intros step.w_exit step.p_auto_val)
  from field_ownership [OF i] i show ?thesis by simp
qed

section \<open>The dual-sensor loop\<close>

subsection \<open>One cycle of the loop\<close>

text \<open>The definitions that the evaluation of a cycle on concrete readings unfolds.\<close>

lemmas decide_defs =
  autoset_decide_def autoset_targets_def smoothed_def override_targets_def cpu_clamp_def gpu_rescale_def blend_def smooth_def duty_curve_def
  ctrl_override_def rate_limit_def resync_def fault_check_def d2i_def int32_def
  TEMP_FAIL_THRESHOLD_def Let_def

text \<open>The overrides of one channel in closed form; without overflow the sum is the plain one.\<close>

lemma int32_id: "is_int32 x \<Longrightarrow> int32 x = x"
  by (simp add: is_int32_def int32_def)





text \<open>
  Where the arithmetic overflows: a curve duty of 30 with an offset of 2147483647 gives a
  negative sum, which the floor 0 replaces; and with a current duty of \<open>-2147483645\<close> the
  difference \<open>cur - 5\<close> is 2147483646, so that the target \<open>-2147483648\<close>, 3 points below, is
  applied at once.
\<close>

lemma ctrl_override_wraps: "ctrl_override 30 2147483647 0 (- 1) = 0"
  by (simp add: ctrl_override_def int32_def)

lemma rate_limit_wraps: "rate_limit (- 2147483645) (- 2147483648) 0 = (1, 0)"
  by (simp add: rate_limit_def int32_def)

text \<open>The rate-limiting policy of one channel.\<close>

lemma rate_limit_small:
  "small_decrease cur d \<Longrightarrow> rate_limit cur d rc = (if rc \<ge> 4 then (1, 0) else (0, rc + 1))"
  by (simp add: rate_limit_def small_decrease_def int32_id Let_def)

lemma rate_limit_reset: "fst (rate_limit cur d rc) \<noteq> 0 \<Longrightarrow> snd (rate_limit cur d rc) = 0"
  by (auto simp: rate_limit_def Let_def split: if_splits)

lemma rate_limit_unchanged:
  "fst (rate_limit cur d rc) = 0 \<Longrightarrow> cur \<le> d \<Longrightarrow> snd (rate_limit cur d rc) = rc"
  by (auto simp: rate_limit_def Let_def split: if_splits)

text \<open>
  What the decision of a cycle hands to the apply loop: \<^verbatim>\<open>doSet\<close> and \<^verbatim>\<open>setDuty\<close> after the
  first-pass, re-sync and fault rules, and what it leaves in the session.
\<close>

lemma autoset_targets_keeps:
  "lastfail (fst (autoset_targets ss g c cc cg)) = lastfail ss"
  "current (fst (autoset_targets ss g c cc cg)) = current ss"
  by (simp_all add: autoset_targets_def Let_def split: prod.splits)

lemma fault_check_cases:
  "fault_check ct gt lf ds sd =
     (if ct < 15 \<or> gt < 15
      then (if lf \<ge> 1 then (lf, (1, 1), (max 50 (fst sd), max 50 (snd sd)))
            else (lf + 1, (0, 0), sd))
      else (0, ds, sd))"
  by (simp add: fault_check_def TEMP_FAIL_THRESHOLD_def max_def)

lemma apply_duties_none: "apply_duties ev (0, 0) sd (ss, st) = (ss, st)"
  by (simp add: apply_duties_def)

lemma apply_duties_both:
  "apply_duties ev (1, 1) sd (ss, st) =
     (ss\<lparr>current := sd\<rparr>, write_verified 3 ev 1 (snd sd) (write_verified 3 ev 0 (fst sd) st))"
  by (simp add: apply_duties_def)

lemma apply_duties_lastfail: "lastfail (fst (apply_duties ev ds sd (ss, st))) = lastfail ss"
  by (simp add: apply_duties_def Let_def split: prod.splits)

lemma fault_cycle_rat:
  "fault_cycle ss g c \<longleftrightarrow> cpu_clamp (lastCPU ss) c < 15 \<or> (of_int g :: rat) < 15"
  by (simp add: fault_cycle_def TEMP_FAIL_THRESHOLD_def)

lemma autoset_targets_out:
  "snd (autoset_targets ss g c cc cg) =
     (if initial ss \<noteq> 0 then ((1, 1), override_targets ss g c)
      else if cc \<noteq> fst (current ss) \<or> cg \<noteq> snd (current ss)
      then ((1, 1), (max (fst (current ss)) (fst (override_targets ss g c)),
                     max (snd (current ss)) (snd (override_targets ss g c))))
      else ((fst (rate_limit (fst (current ss)) (fst (override_targets ss g c))
                    (fst (repeatCheck ss))),
             fst (rate_limit (snd (current ss)) (snd (override_targets ss g c))
                    (snd (repeatCheck ss)))),
            override_targets ss g c))"
  by (simp add: autoset_targets_def resync_def Let_def max_def split: prod.splits)

lemma autoset_decide_out:
  "snd (autoset_decide ss g c cc cg) =
     (if fault_cycle ss g c
      then (if lastfail ss \<ge> 1
            then ((1, 1), (max 50 (fst (snd (snd (autoset_targets ss g c cc cg)))),
                           max 50 (snd (snd (snd (autoset_targets ss g c cc cg))))))
            else ((0, 0), snd (snd (autoset_targets ss g c cc cg))))
      else snd (autoset_targets ss g c cc cg))"
proof -
  obtain ss1 ds sd where t: "autoset_targets ss g c cc cg = (ss1, ds, sd)"
    by (cases "autoset_targets ss g c cc cg")
  show ?thesis
    by (simp add: autoset_decide_def t fault_check_cases fault_cycle_rat)
qed

lemma autoset_decide_doSet:
  "fst (snd (autoset_decide ss g c cc cg)) =
     (if fault_cycle ss g c then (if lastfail ss \<ge> 1 then (1, 1) else (0, 0))
      else if initial ss \<noteq> 0 \<or> cc \<noteq> fst (current ss) \<or> cg \<noteq> snd (current ss) then (1, 1)
      else (fst (rate_limit (fst (current ss)) (fst (override_targets ss g c))
                   (fst (repeatCheck ss))),
            fst (rate_limit (snd (current ss)) (snd (override_targets ss g c))
                   (snd (repeatCheck ss)))))"
  by (simp add: autoset_decide_out autoset_targets_out)


lemma autoset_decide_keeps:
  "current (fst (autoset_decide ss g c cc cg)) = current ss"
  by (simp add: autoset_decide_def autoset_targets_def Let_def split: prod.splits)

lemma autoset_decide_repeatCheck:
  "repeatCheck (fst (autoset_decide ss g c cc cg))
     = (snd (rate_limit (fst (current ss)) (fst (override_targets ss g c)) (fst (repeatCheck ss))),
        snd (rate_limit (snd (current ss)) (snd (override_targets ss g c)) (snd (repeatCheck ss))))"
  by (simp add: autoset_decide_def autoset_targets_def Let_def split: prod.splits)

lemma autoset_decide_quiet:
  "quiet_cycle ss g c cc cg \<Longrightarrow>
   snd (autoset_decide ss g c cc cg) =
     ((fst (rate_limit (fst (current ss)) (fst (override_targets ss g c)) (fst (repeatCheck ss))),
       fst (rate_limit (snd (current ss)) (snd (override_targets ss g c)) (snd (repeatCheck ss)))),
      override_targets ss g c)"
  by (simp add: quiet_cycle_def autoset_decide_out autoset_targets_out)

lemma apply_duties_current:
  "current (fst (apply_duties ev ds sd (ss, st))) =
     (if fst ds \<noteq> 0 then fst sd else fst (current ss),
      if snd ds \<noteq> 0 then snd sd else snd (current ss))"
  by (simp add: apply_duties_def Let_def)

lemma apply_duties_repeatCheck:
  "repeatCheck (fst (apply_duties ev ds sd (ss, st))) = repeatCheck ss"
  by (simp add: apply_duties_def Let_def)

lemma apply_duties_sys:
  "snd (apply_duties ev ds sd (ss, st)) =
     (let st1 = (if fst ds \<noteq> 0 then write_verified 3 ev 0 (fst sd) st else st)
      in if snd ds \<noteq> 0 then write_verified 3 ev 1 (snd sd) st1 else st1)"
  by (simp add: apply_duties_def Let_def)

text \<open>
  An iteration that found a GPU token, in terms of what it read: the CPU temperature after
  the retries and the two duties the hardware reports.
\<close>

lemma autoset_body_found:
  assumes "stdin_tokens x \<noteq> []"
    and "cpu_temp_tries 3 ev (lastCPU (ctrl_reload (ctrl_file x) ss0)) 0 st = (c, st1)"
    and "ec_query_cpu_fan_duty ev st1 = (cc, st2)"
    and "ec_query_gpu_fan_duty ev st2 = (cg, st3)"
  shows "autoset_body ev x (ss0, st) =
     (let d = autoset_decide (ctrl_reload (ctrl_file x) ss0) (last (stdin_tokens x)) c cc cg;
          a = apply_duties ev (fst (snd d)) (snd (snd d)) (fst d, st3)
      in ((fst a)\<lparr>missing := 0\<rparr>, snd a))"
  using assms by (simp add: autoset_body_def Let_def split: prod.splits)

lemma autoset_body_current:
  assumes "stdin_tokens x \<noteq> []"
    and "cpu_temp_tries 3 ev (lastCPU (ctrl_reload (ctrl_file x) ss0)) 0 st = (c, st1)"
    and "ec_query_cpu_fan_duty ev st1 = (cc, st2)"
    and "ec_query_gpu_fan_duty ev st2 = (cg, st3)"
  shows "current (fst (autoset_body ev x (ss0, st))) =
     (let ss = ctrl_reload (ctrl_file x) ss0;
          d = snd (autoset_decide ss (last (stdin_tokens x)) c cc cg)
      in (if fst (fst d) \<noteq> 0 then fst (snd d) else fst (current ss),
          if snd (fst d) \<noteq> 0 then snd (snd d) else snd (current ss)))"
  by (simp add: autoset_body_found [OF assms] Let_def apply_duties_current
      autoset_decide_keeps)

lemma autoset_body_sys:
  assumes "stdin_tokens x \<noteq> []"
    and "cpu_temp_tries 3 ev (lastCPU (ctrl_reload (ctrl_file x) ss0)) 0 st = (c, st1)"
    and "ec_query_cpu_fan_duty ev st1 = (cc, st2)"
    and "ec_query_gpu_fan_duty ev st2 = (cg, st3)"
  shows "snd (autoset_body ev x (ss0, st)) =
     (let d = snd (autoset_decide (ctrl_reload (ctrl_file x) ss0) (last (stdin_tokens x)) c cc cg);
          st4 = (if fst (fst d) \<noteq> 0 then write_verified 3 ev 0 (fst (snd d)) st3 else st3)
      in if snd (fst d) \<noteq> 0 then write_verified 3 ev 1 (snd (snd d)) st4 else st4)"
  by (simp add: autoset_body_found [OF assms] Let_def apply_duties_sys)

lemma autoset_body_repeatCheck:
  assumes "stdin_tokens x \<noteq> []"
    and "cpu_temp_tries 3 ev (lastCPU (ctrl_reload (ctrl_file x) ss0)) 0 st = (c, st1)"
    and "ec_query_cpu_fan_duty ev st1 = (cc, st2)"
    and "ec_query_gpu_fan_duty ev st2 = (cg, st3)"
  shows "repeatCheck (fst (autoset_body ev x (ss0, st))) =
     repeatCheck (fst (autoset_decide (ctrl_reload (ctrl_file x) ss0)
                         (last (stdin_tokens x)) c cc cg))"
  by (simp add: autoset_body_found [OF assms] Let_def apply_duties_repeatCheck)

text \<open>The readings and the writes on the machine \<open>warm_env\<close>.\<close>

lemma warm_readings:
  "cpu_temp_tries 3 warm_env 70 0 sys0 = (64, tick sys0)"
  "ec_query_cpu_fan_duty warm_env (tick sys0) = (40, tick (tick sys0))"
  "ec_query_gpu_fan_duty warm_env (tick (tick sys0)) = (24, tick (tick (tick sys0)))"
  by (simp_all add: eval_nat_numeral ec_query_cpu_temp_def ec_query_cpu_fan_duty_def
      ec_query_gpu_fan_duty_def hwmon_fopen_def warm_env_def c_div_def tick_def sys0_def
      calculate_fan_duty_exact)


lemma warm_write_both:
  "hwmon_outs (write_verified 3 warm_env 1 20
                 (write_verified 3 warm_env 0 36 (tick (tick (tick sys0)))))
     = [(Pwm1, 92), (Pwm1, 92), (Pwm1, 92), (Pwm2, 51), (Pwm2, 51), (Pwm2, 51)]"
  by (simp add: eval_nat_numeral ec_write_cpu_fan_duty_def ec_write_gpu_fan_duty_def
      ec_query_cpu_fan_duty_def ec_query_gpu_fan_duty_def
      hwmon_fopen_def warm_env_def tick_def sys0_def calculate_fan_duty_exact
      fan_duty_raw_exact EXIT_SUCCESS_def)

subsection \<open>Control-file overrides\<close>




subsection \<open>Rate limiting\<close>

text \<open>
  C7, as the claim states it, fails twice. The repeat counter is not cleared by a cycle
  that asks for no decrease: with current duty 40, targets 38 and 40 in alternation bring
  the counter to 4, and the fifth request for 38 is applied although no two requests were
  consecutive. And an apply forced by the re-sync rule does not reset the counter: with
  the counter at 2, current duties (40, 24) and a hardware-reported CPU duty of 45, the
  target 36 raises the counter to 3, both channels are applied, and the counter stays 3.
\<close>

theorem debounce_counterexample:
  "rate_limit 40 38 0 = (0, 1) \<and> rate_limit 40 40 1 = (0, 1)
   \<and> rate_limit 40 38 1 = (0, 2) \<and> rate_limit 40 40 2 = (0, 2)
   \<and> rate_limit 40 38 2 = (0, 3) \<and> rate_limit 40 40 3 = (0, 3)
   \<and> rate_limit 40 38 3 = (0, 4) \<and> rate_limit 40 40 4 = (0, 4)
   \<and> rate_limit 40 38 4 = (1, 0)
   \<and> autoset_decide (after_first_cycle\<lparr>repeatCheck := (2, 0)\<rparr>) 59 64 45 24
       = (after_first_cycle\<lparr>lastCPU := 66, lastGPU := 54, repeatCheck := (3, 0)\<rparr>,
          (1, 1), (40, 24))"
  by (simp add: rate_limit_def decide_defs after_first_cycle_def session_init_def)

text \<open>
  C7, amended. Take a cycle of the dual-sensor loop that meets no other apply condition: it
  is not the first pass, the duties the hardware reports are the current ones, and the cycle
  is not taken for a fault. A target below the channel's current (non-zero) duty by at most
  5 points is then not applied while the channel's repeat counter is below 4: the current
  duty stays, nothing is written to that fan, and the counter rises by one. With the
  counter at 4 the target is applied and the counter is reset. The counter is reset to 0
  whenever the policy itself decides to apply on that channel, and a cycle whose target is
  not below the current duty and is not applied leaves it unchanged, so the four earlier
  requests need not be consecutive. The counters a cycle leaves behind are always those
  the policy computed: what the first-pass, re-sync and fault rules do to \<^verbatim>\<open>doSet\<close> afterwards
  does not touch them. (\<open>small_decrease\<close> asks that \<open>cur - 5\<close> and \<open>cur + 1\<close> are values of the
  type \<^verbatim>\<open>int\<close>, as they are for every duty from \<open>-2147483643\<close> to 100.)
\<close>

theorem rate_limit_debounce:
  "(small_decrease cur d \<longrightarrow>
      rate_limit cur d rc = (if rc \<ge> 4 then (1, 0) else (0, rc + 1)))
   \<and> (fst (rate_limit cur d rc) \<noteq> 0 \<longrightarrow> snd (rate_limit cur d rc) = 0)
   \<and> (fst (rate_limit cur d rc) = 0 \<and> cur \<le> d \<longrightarrow> snd (rate_limit cur d rc) = rc)
   \<and> repeatCheck (fst (autoset_decide ss g c cc cg))
     = (snd (rate_limit (fst (current ss)) (fst (override_targets ss g c)) (fst (repeatCheck ss))),
        snd (rate_limit (snd (current ss)) (snd (override_targets ss g c)) (snd (repeatCheck ss))))
   \<and> fst (snd (autoset_decide ss g c cc cg)) =
       (if fault_cycle ss g c then (if lastfail ss \<ge> 1 then (1, 1) else (0, 0))
        else if initial ss \<noteq> 0 \<or> cc \<noteq> fst (current ss) \<or> cg \<noteq> snd (current ss) then (1, 1)
        else (fst (rate_limit (fst (current ss)) (fst (override_targets ss g c))
                     (fst (repeatCheck ss))),
              fst (rate_limit (snd (current ss)) (snd (override_targets ss g c))
                     (snd (repeatCheck ss)))))
   \<and> (stdin_tokens x \<noteq> [] \<and> ss = ctrl_reload (ctrl_file x) ss0 \<and> g = last (stdin_tokens x)
        \<and> cpu_temp_tries 3 ev (lastCPU ss) 0 st = (c, st1)
        \<and> ec_query_cpu_fan_duty ev st1 = (cc, st2)
        \<and> ec_query_gpu_fan_duty ev st2 = (cg, st3) \<longrightarrow>
        (let T = override_targets ss g c;
             p0 = rate_limit (fst (current ss)) (fst T) (fst (repeatCheck ss));
             p1 = rate_limit (snd (current ss)) (snd T) (snd (repeatCheck ss));
             r = autoset_body ev x (ss0, st)
         in repeatCheck (fst r) = (snd p0, snd p1)
            \<and> (quiet_cycle ss g c cc cg \<longrightarrow>
                 current (fst r) = (if fst p0 \<noteq> 0 then fst T else fst (current ss),
                                    if fst p1 \<noteq> 0 then snd T else snd (current ss))
                 \<and> (small_decrease (fst (current ss)) (fst T) \<and> fst (repeatCheck ss) < 4 \<longrightarrow>
                      fst (current (fst r)) = fst (current ss)
                      \<and> fst (repeatCheck (fst r)) = fst (repeatCheck ss) + 1
                      \<and> snd r = (if fst p1 \<noteq> 0 then write_verified 3 ev 1 (snd T) st3 else st3))
                 \<and> (small_decrease (fst (current ss)) (fst T) \<and> 4 \<le> fst (repeatCheck ss) \<longrightarrow>
                      fst (current (fst r)) = fst T \<and> fst (repeatCheck (fst r)) = 0
                      \<and> snd r = (if fst p1 \<noteq> 0
                                 then write_verified 3 ev 1 (snd T)
                                        (write_verified 3 ev 0 (fst T) st3)
                                 else write_verified 3 ev 0 (fst T) st3))
                 \<and> (small_decrease (snd (current ss)) (snd T) \<and> snd (repeatCheck ss) < 4 \<longrightarrow>
                      snd (current (fst r)) = snd (current ss)
                      \<and> snd (repeatCheck (fst r)) = snd (repeatCheck ss) + 1
                      \<and> snd r = (if fst p0 \<noteq> 0 then write_verified 3 ev 0 (fst T) st3 else st3))
                 \<and> (small_decrease (snd (current ss)) (snd T) \<and> 4 \<le> snd (repeatCheck ss) \<longrightarrow>
                      snd (current (fst r)) = snd T \<and> snd (repeatCheck (fst r)) = 0
                      \<and> snd r = write_verified 3 ev 1 (snd T)
                                  (if fst p0 \<noteq> 0 then write_verified 3 ev 0 (fst T) st3
                                   else st3)))))"
proof -
  have body: "(let T = override_targets ss g c;
             p0 = rate_limit (fst (current ss)) (fst T) (fst (repeatCheck ss));
             p1 = rate_limit (snd (current ss)) (snd T) (snd (repeatCheck ss));
             r = autoset_body ev x (ss0, st)
         in repeatCheck (fst r) = (snd p0, snd p1)
            \<and> (quiet_cycle ss g c cc cg \<longrightarrow>
                 current (fst r) = (if fst p0 \<noteq> 0 then fst T else fst (current ss),
                                    if fst p1 \<noteq> 0 then snd T else snd (current ss))
                 \<and> (small_decrease (fst (current ss)) (fst T) \<and> fst (repeatCheck ss) < 4 \<longrightarrow>
                      fst (current (fst r)) = fst (current ss)
                      \<and> fst (repeatCheck (fst r)) = fst (repeatCheck ss) + 1
                      \<and> snd r = (if fst p1 \<noteq> 0 then write_verified 3 ev 1 (snd T) st3 else st3))
                 \<and> (small_decrease (fst (current ss)) (fst T) \<and> 4 \<le> fst (repeatCheck ss) \<longrightarrow>
                      fst (current (fst r)) = fst T \<and> fst (repeatCheck (fst r)) = 0
                      \<and> snd r = (if fst p1 \<noteq> 0
                                 then write_verified 3 ev 1 (snd T)
                                        (write_verified 3 ev 0 (fst T) st3)
                                 else write_verified 3 ev 0 (fst T) st3))
                 \<and> (small_decrease (snd (current ss)) (snd T) \<and> snd (repeatCheck ss) < 4 \<longrightarrow>
                      snd (current (fst r)) = snd (current ss)
                      \<and> snd (repeatCheck (fst r)) = snd (repeatCheck ss) + 1
                      \<and> snd r = (if fst p0 \<noteq> 0 then write_verified 3 ev 0 (fst T) st3 else st3))
                 \<and> (small_decrease (snd (current ss)) (snd T) \<and> 4 \<le> snd (repeatCheck ss) \<longrightarrow>
                      snd (current (fst r)) = snd T \<and> snd (repeatCheck (fst r)) = 0
                      \<and> snd r = write_verified 3 ev 1 (snd T)
                                  (if fst p0 \<noteq> 0 then write_verified 3 ev 0 (fst T) st3
                                   else st3))))"
    if a: "stdin_tokens x \<noteq> []" "ss = ctrl_reload (ctrl_file x) ss0"
      "g = last (stdin_tokens x)" "cpu_temp_tries 3 ev (lastCPU ss) 0 st = (c, st1)"
      "ec_query_cpu_fan_duty ev st1 = (cc, st2)" "ec_query_gpu_fan_duty ev st2 = (cg, st3)"
  proof -
    define T where "T = override_targets ss g c"
    define p0 where "p0 = rate_limit (fst (current ss)) (fst T) (fst (repeatCheck ss))"
    define p1 where "p1 = rate_limit (snd (current ss)) (snd T) (snd (repeatCheck ss))"
    define r where "r = autoset_body ev x (ss0, st)"
    from a(4) have rd: "cpu_temp_tries 3 ev (lastCPU (ctrl_reload (ctrl_file x) ss0)) 0 st = (c, st1)"
      by (simp add: a(2))
    have rc: "repeatCheck (fst r) = (snd p0, snd p1)"
      unfolding r_def p0_def p1_def T_def
      using autoset_body_repeatCheck [OF a(1) rd a(5) a(6)]
      by (simp add: autoset_decide_repeatCheck a(2) a(3))
    have q: "current (fst r) = (if fst p0 \<noteq> 0 then fst T else fst (current ss),
                                if fst p1 \<noteq> 0 then snd T else snd (current ss))"
        "snd r = (let st4 = (if fst p0 \<noteq> 0 then write_verified 3 ev 0 (fst T) st3 else st3)
                  in if fst p1 \<noteq> 0 then write_verified 3 ev 1 (snd T) st4 else st4)"
      if "quiet_cycle ss g c cc cg"
    proof -
      from autoset_decide_quiet [OF that]
      have d: "snd (autoset_decide ss g c cc cg) = ((fst p0, fst p1), T)"
        by (simp add: p0_def p1_def T_def)
      from autoset_body_current [OF a(1) rd a(5) a(6)]
      show "current (fst r) = (if fst p0 \<noteq> 0 then fst T else fst (current ss),
                                if fst p1 \<noteq> 0 then snd T else snd (current ss))"
        unfolding r_def using d by (simp add: a(2) [symmetric] a(3) [symmetric] Let_def)
      from autoset_body_sys [OF a(1) rd a(5) a(6)]
      show "snd r = (let st4 = (if fst p0 \<noteq> 0 then write_verified 3 ev 0 (fst T) st3 else st3)
                  in if fst p1 \<noteq> 0 then write_verified 3 ev 1 (snd T) st4 else st4)"
        unfolding r_def using d by (simp add: a(2) [symmetric] a(3) [symmetric] Let_def)
    qed
    have s0: "p0 = (if fst (repeatCheck ss) \<ge> 4 then (1, 0) else (0, fst (repeatCheck ss) + 1))"
      if "small_decrease (fst (current ss)) (fst T)"
      unfolding p0_def by (rule rate_limit_small [OF that])
    have s1: "p1 = (if snd (repeatCheck ss) \<ge> 4 then (1, 0) else (0, snd (repeatCheck ss) + 1))"
      if "small_decrease (snd (current ss)) (snd T)"
      unfolding p1_def by (rule rate_limit_small [OF that])
    have "repeatCheck (fst r) = (snd p0, snd p1)
            \<and> (quiet_cycle ss g c cc cg \<longrightarrow>
                 current (fst r) = (if fst p0 \<noteq> 0 then fst T else fst (current ss),
                                    if fst p1 \<noteq> 0 then snd T else snd (current ss))
                 \<and> (small_decrease (fst (current ss)) (fst T) \<and> fst (repeatCheck ss) < 4 \<longrightarrow>
                      fst (current (fst r)) = fst (current ss)
                      \<and> fst (repeatCheck (fst r)) = fst (repeatCheck ss) + 1
                      \<and> snd r = (if fst p1 \<noteq> 0 then write_verified 3 ev 1 (snd T) st3 else st3))
                 \<and> (small_decrease (fst (current ss)) (fst T) \<and> 4 \<le> fst (repeatCheck ss) \<longrightarrow>
                      fst (current (fst r)) = fst T \<and> fst (repeatCheck (fst r)) = 0
                      \<and> snd r = (if fst p1 \<noteq> 0
                                 then write_verified 3 ev 1 (snd T)
                                        (write_verified 3 ev 0 (fst T) st3)
                                 else write_verified 3 ev 0 (fst T) st3))
                 \<and> (small_decrease (snd (current ss)) (snd T) \<and> snd (repeatCheck ss) < 4 \<longrightarrow>
                      snd (current (fst r)) = snd (current ss)
                      \<and> snd (repeatCheck (fst r)) = snd (repeatCheck ss) + 1
                      \<and> snd r = (if fst p0 \<noteq> 0 then write_verified 3 ev 0 (fst T) st3 else st3))
                 \<and> (small_decrease (snd (current ss)) (snd T) \<and> 4 \<le> snd (repeatCheck ss) \<longrightarrow>
                      snd (current (fst r)) = snd T \<and> snd (repeatCheck (fst r)) = 0
                      \<and> snd r = write_verified 3 ev 1 (snd T)
                                  (if fst p0 \<noteq> 0 then write_verified 3 ev 0 (fst T) st3
                                   else st3)))"
      using rc q s0 s1 by (auto simp: Let_def)
    thus ?thesis unfolding Let_def T_def p0_def p1_def r_def .
  qed
  show ?thesis
    using rate_limit_small [of cur d rc] rate_limit_reset [of cur d rc]
      rate_limit_unchanged [of cur d rc] autoset_decide_repeatCheck [of ss g c cc cg]
      autoset_decide_doSet [of ss g c cc cg] body
    by blast
qed

text \<open>
  A witness: current duty 40 and target 38 with the counter at 0 and at 4, a rise to 60 and
  an unchanged target; and a cycle on the machine \<open>warm_env\<close> with GPU token 50, whose targets
  36 and 20 lie 4 points below the current duties 40 and 24. With both counters at 0
  nothing is applied or written and both counters become 1; with both at 4 both targets
  are applied and written, and both counters become 0.
\<close>

theorem rate_limit_debounce_witness:
  "small_decrease 40 38
   \<and> rate_limit 40 38 0 = (0, 1) \<and> rate_limit 40 38 4 = (1, 0)
   \<and> snd (rate_limit 40 60 3) = 0 \<and> snd (rate_limit 40 40 3) = 3
   \<and> stdin_tokens (found 50 None) \<noteq> []
   \<and> cpu_temp_tries 3 warm_env (lastCPU (ctrl_reload None after_first_cycle)) 0 sys0
       = (64, tick sys0)
   \<and> ec_query_cpu_fan_duty warm_env (tick sys0) = (40, tick (tick sys0))
   \<and> ec_query_gpu_fan_duty warm_env (tick (tick sys0)) = (24, tick (tick (tick sys0)))
   \<and> quiet_cycle (ctrl_reload None after_first_cycle) 50 64 40 24
   \<and> override_targets (ctrl_reload None after_first_cycle) 50 64 = (36, 20)
   \<and> small_decrease 40 36 \<and> small_decrease 24 20
   \<and> current (fst (autoset_body warm_env (found 50 None) (after_first_cycle, sys0))) = (40, 24)
   \<and> repeatCheck (fst (autoset_body warm_env (found 50 None) (after_first_cycle, sys0)))
       = (1, 1)
   \<and> snd (autoset_body warm_env (found 50 None) (after_first_cycle, sys0))
       = tick (tick (tick sys0))
   \<and> current (fst (autoset_body warm_env (found 50 None)
                     (after_first_cycle\<lparr>repeatCheck := (4, 4)\<rparr>, sys0))) = (36, 20)
   \<and> repeatCheck (fst (autoset_body warm_env (found 50 None)
                         (after_first_cycle\<lparr>repeatCheck := (4, 4)\<rparr>, sys0))) = (0, 0)
   \<and> hwmon_outs (snd (autoset_body warm_env (found 50 None)
                        (after_first_cycle\<lparr>repeatCheck := (4, 4)\<rparr>, sys0)))
       = [(Pwm1, 92), (Pwm1, 92), (Pwm1, 92), (Pwm2, 51), (Pwm2, 51), (Pwm2, 51)]"
proof -
  let ?A = "after_first_cycle"
  let ?B = "after_first_cycle\<lparr>repeatCheck := (4, 4)\<rparr>"
  let ?x = "found 50 None"
  have sd: "small_decrease 40 38" "small_decrease 40 36" "small_decrease 24 20"
    by (simp_all add: small_decrease_def is_int32_def)
  have p: "rate_limit 40 60 3 = (1, 0)" "rate_limit 40 40 3 = (0, 3)"
    by (simp_all add: rate_limit_def int32_def)
  have x: "stdin_tokens ?x \<noteq> []" "last (stdin_tokens ?x) = 50" "ctrl_file ?x = None"
    by (simp_all add: found_def)
  have l: "lastCPU (ctrl_reload None ?A) = 70" "lastCPU (ctrl_reload None ?B) = 70"
    "current (ctrl_reload None ?A) = (40, 24)" "current (ctrl_reload None ?B) = (40, 24)"
    "repeatCheck (ctrl_reload None ?A) = (0, 0)" "repeatCheck (ctrl_reload None ?B) = (4, 4)"
    by (simp_all add: ctrl_reload_def after_first_cycle_def session_init_def)
  have q: "quiet_cycle (ctrl_reload None ?A) 50 64 40 24"
    "quiet_cycle (ctrl_reload None ?B) 50 64 40 24"
    by (simp_all add: ctrl_reload_def quiet_cycle_def fault_cycle_def cpu_clamp_def
        TEMP_FAIL_THRESHOLD_def after_first_cycle_def session_init_def)
  have t: "override_targets (ctrl_reload None ?A) 50 64 = (36, 20)"
    "override_targets (ctrl_reload None ?B) 50 64 = (36, 20)"
    by (simp_all add: ctrl_reload_def decide_defs after_first_cycle_def session_init_def)
  note r = warm_readings
  from rate_limit_debounce [where cur = 40 and d = 38 and rc = 0] sd(1)
  have a1: "rate_limit 40 38 0 = (0, 1)" by simp
  from rate_limit_debounce [where cur = 40 and d = 38 and rc = 4] sd(1)
  have a2: "rate_limit 40 38 4 = (1, 0)" by simp
  from rate_limit_debounce [where cur = 40 and d = 60 and rc = 3] p(1)
  have a3: "snd (rate_limit 40 60 3) = 0" by simp
  from rate_limit_debounce [where cur = 40 and d = 40 and rc = 3] p(2)
  have a4: "snd (rate_limit 40 40 3) = 3" by simp
  from rate_limit_debounce [where ss = "ctrl_reload None ?A" and ?ss0.0 = ?A and g = 50
      and c = 64 and cc = 40 and cg = 24 and x = ?x and ev = warm_env
      and st = sys0 and ?st1.0 = "tick sys0" and ?st2.0 = "tick (tick sys0)"
      and ?st3.0 = "tick (tick (tick sys0))"]
  have b1: "current (fst (autoset_body warm_env ?x (?A, sys0))) = (40, 24)
    \<and> repeatCheck (fst (autoset_body warm_env ?x (?A, sys0))) = (1, 1)
    \<and> snd (autoset_body warm_env ?x (?A, sys0)) = tick (tick (tick sys0))"
    using sd(2,3) by (simp add: x l r q t Let_def rate_limit_small prod_eq_iff)
  from rate_limit_debounce [where ss = "ctrl_reload None ?B" and ?ss0.0 = ?B and g = 50
      and c = 64 and cc = 40 and cg = 24 and x = ?x and ev = warm_env
      and st = sys0 and ?st1.0 = "tick sys0" and ?st2.0 = "tick (tick sys0)"
      and ?st3.0 = "tick (tick (tick sys0))"]
  have b2: "current (fst (autoset_body warm_env ?x (?B, sys0))) = (36, 20)
    \<and> repeatCheck (fst (autoset_body warm_env ?x (?B, sys0))) = (0, 0)
    \<and> snd (autoset_body warm_env ?x (?B, sys0))
        = write_verified 3 warm_env 1 20 (write_verified 3 warm_env 0 36 (tick (tick (tick sys0))))"
    using sd(2,3) by (simp add: x l r q t Let_def rate_limit_small prod_eq_iff)
  from sd a1 a2 a3 a4 x l r q t b1 b2 show ?thesis
    by (simp add: warm_write_both del: One_nat_def)
qed

subsection \<open>The temperature-floor fault\<close>

text \<open>
  C5, as the claim states it, speaks of the raw CPU temperature. The fault test is made on
  the reading after \<open>cpu_clamp\<close>, which lifts a reading more than 10 below the last smoothed
  value. After a first iteration with CPU 70 and GPU token 56 (targets 40 and 24, applied),
  a raw CPU reading of 5 with GPU token 69 is lifted to 60: the cycle is not taken for a
  fault, and new duties 34 and 30 are to be applied to both channels.
\<close>

theorem raw_fault_not_absorbed:
  "autoset_decide session_init 56 70 0 0
     = (session_init\<lparr>initial := 0, lastCPU := 70, lastGPU := 54\<rparr>, (1, 1), (40, 24))
   \<and> fst (apply_duties hwmon_env (1, 1) (40, 24)
            (session_init\<lparr>initial := 0, lastCPU := 70, lastGPU := 54\<rparr>, sys0))
     = after_first_cycle
   \<and> (5::int) < TEMP_FAIL_THRESHOLD
   \<and> autoset_decide after_first_cycle 69 5 40 24
     = (after_first_cycle\<lparr>lastCPU := 64, lastGPU := 60\<rparr>, (1, 1), (34, 30))"
  by (simp add: decide_defs apply_duties_def session_init_def after_first_cycle_def)

text \<open>
  C5, amended. Call a cycle faulty when its CPU reading after \<open>cpu_clamp\<close> (the larger of
  the raw reading and the last smoothed value minus 10) or its GPU token is below 15. A
  faulty cycle with the fault counter at 0 sets the counter to 1, applies nothing and
  leaves the current duties and the machine untouched. A faulty cycle with the counter at
  1 or more raises both targets to at least 50, makes them the current duties and writes
  them to both fans. A cycle that is not faulty resets the counter to 0.
\<close>

theorem fault_absorption:
  "case autoset_decide ss g c cc cg of (ss', doSet, setDuty) \<Rightarrow>
   case apply_duties ev doSet setDuty (ss', st) of (ss'', st') \<Rightarrow>
     lastfail ss'' = lastfail ss'
   \<and> (fault_cycle ss g c \<and> lastfail ss < 1 \<longrightarrow>
        doSet = (0, 0) \<and> current ss'' = current ss \<and> st' = st
        \<and> lastfail ss' = lastfail ss + 1)
   \<and> (fault_cycle ss g c \<and> lastfail ss \<ge> 1 \<longrightarrow>
        doSet = (1, 1) \<and> 50 \<le> fst setDuty \<and> 50 \<le> snd setDuty
        \<and> current ss'' = setDuty
        \<and> st' = write_verified 3 ev 1 (snd setDuty) (write_verified 3 ev 0 (fst setDuty) st)
        \<and> lastfail ss' = lastfail ss)
   \<and> (\<not> fault_cycle ss g c \<longrightarrow> lastfail ss' = 0)"
proof -
  obtain ss1 ds sd where t: "autoset_targets ss g c cc cg = (ss1, ds, sd)"
    by (cases "autoset_targets ss g c cc cg")
  from autoset_targets_keeps [of ss g c cc cg] t
  have k: "lastfail ss1 = lastfail ss" "current ss1 = current ss" by simp_all
  have f: "fault_cycle ss g c \<longleftrightarrow> cpu_clamp (lastCPU ss) c < 15 \<or> (of_int g :: rat) < 15"
    by (simp add: fault_cycle_def TEMP_FAIL_THRESHOLD_def)
  obtain ss' doSet setDuty where d: "autoset_decide ss g c cc cg = (ss', doSet, setDuty)"
    by (cases "autoset_decide ss g c cc cg")
  obtain ss'' st' where a: "apply_duties ev doSet setDuty (ss', st) = (ss'', st')"
    by (cases "apply_duties ev doSet setDuty (ss', st)")
  from apply_duties_lastfail [of ev doSet setDuty ss' st] a
  have l: "lastfail ss'' = lastfail ss'" by simp
  have "(fault_cycle ss g c \<and> lastfail ss < 1 \<longrightarrow>
        doSet = (0, 0) \<and> current ss'' = current ss \<and> st' = st
        \<and> lastfail ss' = lastfail ss + 1)
   \<and> (fault_cycle ss g c \<and> lastfail ss \<ge> 1 \<longrightarrow>
        doSet = (1, 1) \<and> 50 \<le> fst setDuty \<and> 50 \<le> snd setDuty
        \<and> current ss'' = setDuty
        \<and> st' = write_verified 3 ev 1 (snd setDuty) (write_verified 3 ev 0 (fst setDuty) st)
        \<and> lastfail ss' = lastfail ss)
   \<and> (\<not> fault_cycle ss g c \<longrightarrow> lastfail ss' = 0)"
  proof (cases "fault_cycle ss g c")
    case False
    thus ?thesis using d f by (auto simp: autoset_decide_def t fault_check_cases)
  next
    case True
    show ?thesis
    proof (cases "lastfail ss \<ge> 1")
      case True
      with \<open>fault_cycle ss g c\<close> f d
      have "(ss', doSet, setDuty)
               = (ss1\<lparr>lastfail := lastfail ss\<rparr>, (1, 1), (max 50 (fst sd), max 50 (snd sd)))"
        by (simp add: autoset_decide_def t fault_check_cases)
      thus ?thesis using True \<open>fault_cycle ss g c\<close> a by (auto simp: apply_duties_both)
    next
      case False
      with \<open>fault_cycle ss g c\<close> f d
      have "(ss', doSet, setDuty) = (ss1\<lparr>lastfail := lastfail ss + 1\<rparr>, (0, 0), sd)"
        by (simp add: autoset_decide_def t fault_check_cases)
      thus ?thesis using False \<open>fault_cycle ss g c\<close> k a by (auto simp: apply_duties_none)
    qed
  qed
  with l show ?thesis by (simp add: d a)
qed

text \<open>
  A witness: with no smoothed CPU value yet, the readings CPU 5 and GPU 56 with the counter
  at 0 and at 1; and the cycle of C5's counterexample with the counter at 1.
\<close>

theorem fault_absorption_witness:
  "fault_cycle (after_first_cycle\<lparr>lastCPU := 0\<rparr>) 56 5
   \<and> lastfail (after_first_cycle\<lparr>lastCPU := 0\<rparr>) < 1
   \<and> fst (snd (autoset_decide (after_first_cycle\<lparr>lastCPU := 0\<rparr>) 56 5 40 24)) = (0, 0)
   \<and> fault_cycle (after_first_cycle\<lparr>lastCPU := 0, lastfail := 1\<rparr>) 56 5
   \<and> lastfail (after_first_cycle\<lparr>lastCPU := 0, lastfail := 1\<rparr>) \<ge> 1
   \<and> fst (snd (autoset_decide (after_first_cycle\<lparr>lastCPU := 0, lastfail := 1\<rparr>) 56 5 40 24))
       = (1, 1)
   \<and> 50 \<le> fst (snd (snd (autoset_decide (after_first_cycle\<lparr>lastCPU := 0, lastfail := 1\<rparr>)
                56 5 40 24)))
   \<and> \<not> fault_cycle (after_first_cycle\<lparr>lastfail := 1\<rparr>) 69 5
   \<and> lastfail (fst (autoset_decide (after_first_cycle\<lparr>lastfail := 1\<rparr>) 69 5 40 24)) = 0"
proof -
  have a: "fault_cycle (after_first_cycle\<lparr>lastCPU := 0\<rparr>) 56 5"
    "lastfail (after_first_cycle\<lparr>lastCPU := 0\<rparr>) < 1"
    by (simp_all add: fault_cycle_def after_first_cycle_def session_init_def cpu_clamp_def
        TEMP_FAIL_THRESHOLD_def)
  have b: "fault_cycle (after_first_cycle\<lparr>lastCPU := 0, lastfail := 1\<rparr>) 56 5"
    "lastfail (after_first_cycle\<lparr>lastCPU := 0, lastfail := 1\<rparr>) \<ge> 1"
    by (simp_all add: fault_cycle_def after_first_cycle_def session_init_def cpu_clamp_def
        TEMP_FAIL_THRESHOLD_def)
  have c: "\<not> fault_cycle (after_first_cycle\<lparr>lastfail := 1\<rparr>) 69 5"
    by (simp add: fault_cycle_def after_first_cycle_def session_init_def cpu_clamp_def
        TEMP_FAIL_THRESHOLD_def)
  from fault_absorption [where ss = "after_first_cycle\<lparr>lastCPU := 0\<rparr>" and g = 56 and c = 5
      and cc = 40 and cg = 24 and ev = hwmon_env and st = sys0] a
    fault_absorption [where ss = "after_first_cycle\<lparr>lastCPU := 0, lastfail := 1\<rparr>"
      and g = 56 and c = 5 and cc = 40 and cg = 24 and ev = hwmon_env and st = sys0] b
    fault_absorption [where ss = "after_first_cycle\<lparr>lastfail := 1\<rparr>" and g = 69 and c = 5
      and cc = 40 and cg = 24 and ev = hwmon_env and st = sys0] c
  show ?thesis
    by (simp split: prod.splits)
qed

subsection \<open>Missing GPU input\<close>

lemma autoset_body_idle:
  "stdin_tokens x = [] \<Longrightarrow> autoset_body ev x (ss, st) = (ss\<lparr>missing := missing ss + 1\<rparr>, st)"
  by (simp add: autoset_body_def)

lemma autoset_loop_idle:
  "\<forall>x\<in>set xs. stdin_tokens x = [] \<Longrightarrow> missing ss + int (length xs) \<le> 6 \<Longrightarrow>
   autoset_loop ev (xs @ ys) (ss, st)
     = autoset_loop ev ys (ss\<lparr>missing := missing ss + int (length xs)\<rparr>, st)"
proof (induction xs arbitrary: ss)
  case Nil
  show ?case by simp
next
  case (Cons x xs)
  from Cons.prems have m: "\<not> missing ss > 5" by simp
  from Cons.prems have x: "stdin_tokens x = []" by simp
  have "autoset_loop ev ((x # xs) @ ys) (ss, st)
          = autoset_loop ev (xs @ ys) (ss\<lparr>missing := missing ss + 1\<rparr>, st)"
    using m by (simp add: autoset_body_idle [OF x])
  also have "\<dots> = autoset_loop ev ys
      (ss\<lparr>missing := missing ss + 1, missing := missing ss + 1 + int (length xs)\<rparr>, st)"
    using Cons.IH [of "ss\<lparr>missing := missing ss + 1\<rparr>"] Cons.prems by simp
  finally show ?case by (simp add: add.assoc)
qed

lemma fan_duty_raw_70_word: "(word_of_int (fan_duty_raw 70) :: 8 word) = 179"
  by (simp add: fan_duty_raw_70)

text \<open>
  C2, as the claim states it, fails: the test is \<^verbatim>\<open>missing > 5\<close>, made when an iteration
  starts. After exactly five iterations without a GPU token the loop is still running with
  \<^verbatim>\<open>missing = 5\<close>, and nothing has been written.
\<close>

theorem liveness_after_five_counterexample:
  "autoset_loop stuck_env [idle, idle, idle, idle, idle] (session_init, sys0)
     = Running (session_init\<lparr>missing := 5\<rparr>) sys0"
  by (simp add: autoset_body_def idle_def session_init_def)

text \<open>
  C2, amended. Starting with \<^verbatim>\<open>missing = 0\<close>, up to five consecutive iterations without a GPU
  token leave the loop running and write nothing; after six such iterations the next
  iteration writes 70 percent to the GPU fan and then to the CPU fan and exits with code 1,
  whatever input follows. In port mode the two writes are the vendor command \<open>0x99\<close> with
  selector 2, then 1, each with the byte 179.
\<close>

theorem liveness_after_six:
  assumes "missing ss = 0" and "\<forall>x\<in>set xs. stdin_tokens x = []"
  shows "(length xs \<le> 5 \<longrightarrow>
            autoset_loop ev xs (ss, st) = Running (ss\<lparr>missing := int (length xs)\<rparr>) st)
       \<and> (length xs = 6 \<longrightarrow>
            autoset_loop ev (xs @ ys) (ss, st)
              = Exited 1 (snd (ec_write_cpu_fan_duty ev 70 (snd (ec_write_gpu_fan_duty ev 70 st)))))
       \<and> (use_hwmon_interface ev = 0 \<longrightarrow>
            outs (snd (ec_write_cpu_fan_duty ev 70 (snd (ec_write_gpu_fan_duty ev 70 st))))
              = outs st @ [(0x99, EC_SC), (0x02, EC_DATA), (179, EC_DATA),
                           (0x99, EC_SC), (0x01, EC_DATA), (179, EC_DATA)])"
proof (intro conjI impI)
  assume "length xs \<le> 5"
  with autoset_loop_idle [OF assms(2), of ss ev "[]" st] assms(1)
  show "autoset_loop ev xs (ss, st) = Running (ss\<lparr>missing := int (length xs)\<rparr>) st"
    by simp
next
  assume "length xs = 6"
  with autoset_loop_idle [OF assms(2), of ss ev ys st] assms(1)
  have "autoset_loop ev (xs @ ys) (ss, st) = autoset_loop ev ys (ss\<lparr>missing := 6\<rparr>, st)"
    by simp
  also have "\<dots> = liveness_exit ev st" by (cases ys) simp_all
  finally show "autoset_loop ev (xs @ ys) (ss, st)
      = Exited 1 (snd (ec_write_cpu_fan_duty ev 70 (snd (ec_write_gpu_fan_duty ev 70 st))))"
    by (simp add: liveness_exit_def split: prod.splits)
next
  assume "use_hwmon_interface ev = 0"
  thus "outs (snd (ec_write_cpu_fan_duty ev 70 (snd (ec_write_gpu_fan_duty ev 70 st))))
      = outs st @ [(0x99, EC_SC), (0x02, EC_DATA), (179, EC_DATA),
                   (0x99, EC_SC), (0x01, EC_DATA), (179, EC_DATA)]"
    by (simp add: ec_write_cpu_fan_duty_def ec_write_gpu_fan_duty_def ec_io_do_outs
        fan_duty_raw_70_word)
qed

text \<open>A witness: six idle iterations on the stuck controller.\<close>

theorem liveness_after_six_witness:
  "missing session_init = 0
   \<and> stdin_tokens idle = []
   \<and> autoset_loop stuck_env [idle, idle, idle, idle, idle, idle] (session_init, sys0)
       = Exited 1 (snd (ec_write_cpu_fan_duty stuck_env 70
                    (snd (ec_write_gpu_fan_duty stuck_env 70 sys0))))
   \<and> outs (snd (ec_write_cpu_fan_duty stuck_env 70
                    (snd (ec_write_gpu_fan_duty stuck_env 70 sys0))))
       = [(0x99, EC_SC), (0x02, EC_DATA), (179, EC_DATA),
          (0x99, EC_SC), (0x01, EC_DATA), (179, EC_DATA)]"
proof -
  have a: "missing session_init = 0" by (simp add: session_init_def)
  have b: "\<forall>x\<in>set [idle, idle, idle, idle, idle, idle]. stdin_tokens x = []"
    by (simp add: idle_def)
  have c: "use_hwmon_interface stuck_env = 0" by (simp add: stuck_env_def)
  have d: "stdin_tokens idle = []" by (simp add: idle_def)
  from liveness_after_six [OF a b, of stuck_env sys0 "[]"] a c d
  show ?thesis by (simp add: sys0_def)
qed

end
